theory Spec2Isabelle
  imports Main
begin

section \<open>JavaScript strings\<close>

text \<open>
  A JavaScript string is a sequence of UTF-16 code units. A code unit is modelled as a
  natural number (below \<open>2 ^ 16\<close> in every string the program can receive); no operation
  of the program does arithmetic on code units that could leave that range.
  \<open>js\<close> turns an ASCII literal into its code units.
\<close>

type_synonym jsstring = "nat list"

definition js :: "string \<Rightarrow> jsstring" where
  "js s = map of_char s"

text \<open>
  The characters of the regular expression class \<open>\s\<close>, which are also the characters
  that \<open>String.prototype.trim\<close> strips: WhiteSpace (TAB, VT, FF, SP, NBSP, ZWNBSP and the
  Unicode space separators) and LineTerminator (LF, CR, LS, PS).
\<close>

definition isWhiteSpace :: "nat \<Rightarrow> bool" where
  "isWhiteSpace c \<longleftrightarrow>
     c = 0x9 \<or> c = 0xA \<or> c = 0xB \<or> c = 0xC \<or> c = 0xD \<or> c = 0x20 \<or> c = 0xA0 \<or>
     c = 0x1680 \<or> (0x2000 \<le> c \<and> c \<le> 0x200A) \<or> c = 0x2028 \<or> c = 0x2029 \<or>
     c = 0x202F \<or> c = 0x205F \<or> c = 0x3000 \<or> c = 0xFEFF"

definition trim_js :: "jsstring \<Rightarrow> jsstring" where
  "trim_js s = rev (dropWhile isWhiteSpace (rev (dropWhile isWhiteSpace s)))"

text \<open>The class \<open>[0-9a-zA-Z_-]\<close>.\<close>

definition idChar :: "nat \<Rightarrow> bool" where
  "idChar c \<longleftrightarrow>
     (0x30 \<le> c \<and> c \<le> 0x39) \<or> (0x61 \<le> c \<and> c \<le> 0x7A) \<or> (0x41 \<le> c \<and> c \<le> 0x5A) \<or>
     c = 0x5F \<or> c = 0x2D"

text \<open>The class \<open>[^\s\/]\<close>.\<close>

definition tokenChar :: "nat \<Rightarrow> bool" where
  "tokenChar c \<longleftrightarrow> \<not> isWhiteSpace c \<and> c \<noteq> 0x2F"

text \<open>
  Matching under the \<open>i\<close> flag compares canonicalised code units. Every literal of the
  program's patterns is ASCII, and canonicalisation never maps a non-ASCII code unit to
  an ASCII one, so it is enough to fold the ASCII lower-case letters to upper case: a
  code unit matches an ASCII pattern character exactly when the two are equal after
  \<open>canonicalize\<close>.
\<close>

definition canonicalize :: "nat \<Rightarrow> nat" where
  "canonicalize c = (if 0x61 \<le> c \<and> c \<le> 0x7A then c - 0x20 else c)"

definition matchLiteral_ci :: "jsstring \<Rightarrow> jsstring \<Rightarrow> jsstring option" where
  \<comment> \<open>the literal \<open>p\<close> matched case-insensitively at the start of \<open>s\<close>; the rest of \<open>s\<close>\<close>
  "matchLiteral_ci p s =
     (if length p \<le> length s \<and> map canonicalize (take (length p) s) = map canonicalize p
      then Some (drop (length p) s) else None)"

text \<open>
  \<open>String.prototype.match\<close> and \<open>RegExp.prototype.test\<close> with a pattern that is not
  anchored try the pattern at every start position from the left, the end of the string
  included, and keep the first success.
\<close>

fun regexSearch :: "(jsstring \<Rightarrow> 'a option) \<Rightarrow> jsstring \<Rightarrow> 'a option" where
  "regexSearch m [] = m []"
| "regexSearch m (c # cs) = (case m (c # cs) of Some r \<Rightarrow> Some r | None \<Rightarrow> regexSearch m cs)"

subsection \<open>The patterns of \<open>extractChannelId\<close>\<close>

text \<open>\<^verbatim>\<open>/^UC[0-9a-zA-Z_-]{22}$/.test(s)\<close>\<close>

definition isChannelId :: "jsstring \<Rightarrow> bool" where
  "isChannelId s \<longleftrightarrow> length s = 24 \<and> take 2 s = js ''UC'' \<and> list_all idChar (drop 2 s)"

text \<open>
  \<^verbatim>\<open>/youtube\.com\/channel\/(UC[0-9a-zA-Z_-]{22})/i\<close> at one start position; the result is
  capture group 1. The \<open>i\<close> flag covers the letters \<open>UC\<close> of the group as well.
\<close>

definition channelMatchAt :: "jsstring \<Rightarrow> jsstring option" where
  "channelMatchAt s =
     (case matchLiteral_ci (js ''youtube.com/channel/'') s of
        None \<Rightarrow> None
      | Some r \<Rightarrow>
          (case matchLiteral_ci (js ''UC'') r of
             None \<Rightarrow> None
           | Some r' \<Rightarrow>
               if 22 \<le> length r' \<and> list_all idChar (take 22 r') then Some (take 24 r) else None))"

definition channelMatch :: "jsstring \<Rightarrow> jsstring option" where
  "channelMatch s = regexSearch channelMatchAt s"

text \<open>\<^verbatim>\<open>([^\s\/]+)\<close>: the longest run of token characters, which must not be empty.\<close>

definition tokenGroup :: "jsstring \<Rightarrow> jsstring option" where
  "tokenGroup s = (let g = takeWhile tokenChar s in if g = [] then None else Some g)"

text \<open>
  \<^verbatim>\<open>@?([^\s\/]+)\<close>: the optional \<open>@\<close> is greedy, and given back when the group would
  be empty after it.
\<close>

definition atTokenGroup :: "jsstring \<Rightarrow> jsstring option" where
  "atTokenGroup s =
     (case (case s of c # cs \<Rightarrow> if c = 0x40 then tokenGroup cs else None | [] \<Rightarrow> None) of
        Some g \<Rightarrow> Some g
      | None \<Rightarrow> tokenGroup s)"

text \<open>
  \<^verbatim>\<open>/(?:youtube\.com\/)?@?([^\s\/]+)/i\<close> (youtube-backend.js) at one start position: the
  optional prefix is greedy, and given back when the rest fails after it.
\<close>

definition handleMatchAt :: "jsstring \<Rightarrow> jsstring option" where
  "handleMatchAt s =
     (case (case matchLiteral_ci (js ''youtube.com/'') s of
              Some r \<Rightarrow> atTokenGroup r
            | None \<Rightarrow> None) of
        Some g \<Rightarrow> Some g
      | None \<Rightarrow> atTokenGroup s)"

definition handleMatch :: "jsstring \<Rightarrow> jsstring option" where
  "handleMatch s = regexSearch handleMatchAt s"

text \<open>\<^verbatim>\<open>.replace(/^@/, '')\<close>\<close>

definition stripAt :: "jsstring \<Rightarrow> jsstring" where
  "stripAt s = (case s of c # cs \<Rightarrow> if c = 0x40 then cs else s | [] \<Rightarrow> s)"

text \<open>
  \<^verbatim>\<open>/youtube\.com\/(?:c\/|@)([^\s\/]+)/i\<close> (the other variant of the service) at one
  start position, and \<^verbatim>\<open>/^@([^\s\/]+)/\<close>.
\<close>

definition customUrlMatchAt :: "jsstring \<Rightarrow> jsstring option" where
  "customUrlMatchAt s =
     (case matchLiteral_ci (js ''youtube.com/'') s of
        None \<Rightarrow> None
      | Some r \<Rightarrow>
          (case (case matchLiteral_ci (js ''c/'') r of
                   Some r' \<Rightarrow> tokenGroup r'
                 | None \<Rightarrow> None) of
             Some g \<Rightarrow> Some g
           | None \<Rightarrow>
               (case matchLiteral_ci (js ''@'') r of
                  Some r' \<Rightarrow> tokenGroup r'
                | None \<Rightarrow> None)))"

definition bareHandleMatch :: "jsstring \<Rightarrow> jsstring option" where
  "bareHandleMatch s = (case s of c # cs \<Rightarrow> if c = 0x40 then tokenGroup cs else None | [] \<Rightarrow> None)"

definition customMatch :: "jsstring \<Rightarrow> jsstring option" where
  "customMatch s =
     (case regexSearch customUrlMatchAt s of
        Some g \<Rightarrow> Some g
      | None \<Rightarrow> bareHandleMatch s)"


section \<open>Exceptions and percent-encoding\<close>

text \<open>
  The exceptions the program can meet: \<open>URIError\<close> from the URI functions, \<open>TypeError\<close>
  from reading a property of \<open>null\<close> or \<open>undefined\<close>, and \<open>FetchError\<close> for a rejected
  \<open>fetch\<close> or \<open>response.json()\<close> (network failure, body that is not JSON).
\<close>

datatype exn = URIError | TypeError | FetchError

definition hexDigit :: "nat \<Rightarrow> nat option" where
  "hexDigit c =
     (if 0x30 \<le> c \<and> c \<le> 0x39 then Some (c - 0x30)
      else if 0x41 \<le> c \<and> c \<le> 0x46 then Some (c - 0x37)
      else if 0x61 \<le> c \<and> c \<le> 0x66 then Some (c - 0x57)
      else None)"

definition hexByte :: "jsstring \<Rightarrow> nat option" where
  \<comment> \<open>the value of two hexadecimal digits at the start of \<open>s\<close>\<close>
  "hexByte s =
     (case s of
        a # b # _ \<Rightarrow>
          (case hexDigit a of
             None \<Rightarrow> None
           | Some h \<Rightarrow> (case hexDigit b of None \<Rightarrow> None | Some l \<Rightarrow> Some (16 * h + l)))
      | _ \<Rightarrow> None)"

definition escapedByte :: "jsstring \<Rightarrow> nat option" where
  \<comment> \<open>the octet of an escape \<open>%XX\<close> at the start of \<open>s\<close>\<close>
  "escapedByte s = (case s of c # cs \<Rightarrow> if c = 0x25 then hexByte cs else None | [] \<Rightarrow> None)"

text \<open>
  The \<open>j\<close> escapes that must follow the first octet of a multi-octet UTF-8 sequence,
  each with the two top bits \<open>10\<close>.
\<close>

fun continuationOctets :: "nat \<Rightarrow> jsstring \<Rightarrow> nat list option" where
  "continuationOctets 0 s = Some []"
| "continuationOctets (Suc j) s =
     (case escapedByte s of
        None \<Rightarrow> None
      | Some b \<Rightarrow>
          if 0x80 \<le> b \<and> b < 0xC0
          then map_option ((#) b) (continuationOctets j (drop 3 s))
          else None)"

definition utf8Length :: "nat \<Rightarrow> nat" where
  \<comment> \<open>the number of leading one bits of an octet that is at least \<open>0x80\<close>\<close>
  "utf8Length b =
     (if b < 0xC0 then 1 else if b < 0xE0 then 2 else if b < 0xF0 then 3
      else if b < 0xF8 then 4 else 5)"

definition utf8CodePoint :: "nat list \<Rightarrow> nat option" where
  \<comment> \<open>the code point of a valid UTF-8 encoding: not overlong, no surrogate, at most \<open>0x10FFFF\<close>\<close>
  "utf8CodePoint bs =
     (case bs of
        [b0, b1] \<Rightarrow>
          (let v = (b0 mod 32) * 64 + b1 mod 64 in if 0x80 \<le> v then Some v else None)
      | [b0, b1, b2] \<Rightarrow>
          (let v = (b0 mod 16) * 4096 + (b1 mod 64) * 64 + b2 mod 64
           in if 0x800 \<le> v \<and> (v < 0xD800 \<or> 0xDFFF < v) then Some v else None)
      | [b0, b1, b2, b3] \<Rightarrow>
          (let v = (b0 mod 8) * 262144 + (b1 mod 64) * 4096 + (b2 mod 64) * 64 + b3 mod 64
           in if 0x10000 \<le> v \<and> v \<le> 0x10FFFF then Some v else None)
      | _ \<Rightarrow> None)"

definition utf16 :: "nat \<Rightarrow> jsstring" where
  "utf16 v =
     (if v < 0x10000 then [v]
      else [0xD800 + (v - 0x10000) div 1024, 0xDC00 + (v - 0x10000) mod 1024])"

text \<open>
  \<open>decodeURIComponent\<close>: every escape is decoded (the reserved set is empty); an escape
  that is cut short, is not hexadecimal, or does not continue to a valid UTF-8 encoding
  throws \<open>URIError\<close>.
\<close>

fun decodeURIComponent :: "jsstring \<Rightarrow> exn + jsstring" where
  "decodeURIComponent [] = Inr []"
| "decodeURIComponent (c # cs) =
     (if c \<noteq> 0x25 then map_sum id ((#) c) (decodeURIComponent cs)
      else
        (case hexByte cs of
           None \<Rightarrow> Inl URIError
         | Some b \<Rightarrow>
             if b < 0x80 then map_sum id ((#) b) (decodeURIComponent (drop 2 cs))
             else if utf8Length b = 1 \<or> 4 < utf8Length b then Inl URIError
             else
               (case continuationOctets (utf8Length b - 1) (drop 2 cs) of
                  None \<Rightarrow> Inl URIError
                | Some bs \<Rightarrow>
                    (case utf8CodePoint (b # bs) of
                       None \<Rightarrow> Inl URIError
                     | Some v \<Rightarrow>
                         map_sum id ((@) (utf16 v))
                           (decodeURIComponent (drop (2 + 3 * (utf8Length b - 1)) cs))))))"

text \<open>The characters \<open>encodeURIComponent\<close> leaves as they are: \<open>A-Z a-z 0-9 - _ . ! ~ * ' ( )\<close>.\<close>

definition uriUnreserved :: "nat \<Rightarrow> bool" where
  "uriUnreserved c \<longleftrightarrow>
     (0x41 \<le> c \<and> c \<le> 0x5A) \<or> (0x61 \<le> c \<and> c \<le> 0x7A) \<or> (0x30 \<le> c \<and> c \<le> 0x39) \<or>
     c = 0x2D \<or> c = 0x5F \<or> c = 0x2E \<or> c = 0x21 \<or> c = 0x7E \<or> c = 0x2A \<or> c = 0x27 \<or>
     c = 0x28 \<or> c = 0x29"

definition hexChar :: "nat \<Rightarrow> nat" where
  "hexChar d = (if d < 10 then 0x30 + d else 0x37 + d)"

definition percentByte :: "nat \<Rightarrow> jsstring" where
  "percentByte b = [0x25, hexChar (b div 16), hexChar (b mod 16)]"

definition utf8Octets :: "nat \<Rightarrow> nat list" where
  "utf8Octets v =
     (if v < 0x80 then [v]
      else if v < 0x800 then [0xC0 + v div 64, 0x80 + v mod 64]
      else if v < 0x10000 then [0xE0 + v div 4096, 0x80 + (v div 64) mod 64, 0x80 + v mod 64]
      else [0xF0 + v div 262144, 0x80 + (v div 4096) mod 64, 0x80 + (v div 64) mod 64,
            0x80 + v mod 64])"

definition percentEncode :: "nat \<Rightarrow> jsstring" where
  "percentEncode v = concat (map percentByte (utf8Octets v))"

text \<open>
  \<open>encodeURIComponent\<close>: a surrogate that is not part of a pair throws \<open>URIError\<close>.
\<close>

fun encodeURIComponent :: "jsstring \<Rightarrow> exn + jsstring" where
  "encodeURIComponent [] = Inr []"
| "encodeURIComponent (c # cs) =
     (if uriUnreserved c then map_sum id ((#) c) (encodeURIComponent cs)
      else if 0xDC00 \<le> c \<and> c \<le> 0xDFFF then Inl URIError
      else if 0xD800 \<le> c \<and> c \<le> 0xDBFF then
        (case cs of
           [] \<Rightarrow> Inl URIError
         | d # ds \<Rightarrow>
             if 0xDC00 \<le> d \<and> d \<le> 0xDFFF
             then map_sum id ((@) (percentEncode ((c - 0xD800) * 1024 + (d - 0xDC00) + 0x10000)))
                    (encodeURIComponent ds)
             else Inl URIError)
      else map_sum id ((@) (percentEncode c)) (encodeURIComponent cs))"

section \<open>The upstream API\<close>

text \<open>
  What an awaited promise settles to, the parsed body of a response (the JSON value
  \<open>null\<close>, or a value whose \<open>items\<close> property is absent or an array), and what
  \<open>fetch\<close> gives: a rejection, or a response with its status and the outcome of
  \<open>response.json()\<close>.
\<close>

datatype 'a settled = Rejected | Fulfilled 'a

datatype 'i body = JsonNull | JsonValue "'i list option"

datatype 'i fetched = FetchRejected | Responded nat "'i body settled"

text \<open>
  The statements after \<open>await fetch(...)\<close> of the handle lookup:
  \<^verbatim>\<open>const data = await response.json();
  if (data.items && data.items.length > 0) { return data.items[0].id; }\<close>
  An item of the lookup is its \<open>id\<close> property (\<open>None\<close> when absent). The result is
  \<open>Inl\<close> for an exception, \<open>Inr (Some v)\<close> when the function returns \<open>v\<close> and
  \<open>Inr None\<close> when control leaves the \<open>if\<close>.
\<close>

definition firstItemId :: "jsstring option fetched \<Rightarrow> exn + jsstring option option" where
  "firstItemId r =
     (case r of
        FetchRejected \<Rightarrow> Inl FetchError
      | Responded st b \<Rightarrow>
          (case b of
             Rejected \<Rightarrow> Inl FetchError
           | Fulfilled JsonNull \<Rightarrow> Inl TypeError
           | Fulfilled (JsonValue None) \<Rightarrow> Inr None
           | Fulfilled (JsonValue (Some [])) \<Rightarrow> Inr None
           | Fulfilled (JsonValue (Some (i # _))) \<Rightarrow> Inr (Some i)))"

section \<open>\<open>extractChannelId\<close>\<close>

text \<open>
  The result of \<open>extractChannelId\<close> is what the promise settles to (\<open>Inl\<close> a rejection,
  \<open>Inr None\<close> for \<open>null\<close> or \<open>undefined\<close>) together with the handle lookups it sent,
  each named by the text interpolated after \<open>forHandle=\<close>. The input is a string, as
  the request contract gives it.

  youtube-backend.js: the input is trimmed; the lookup is inside \<open>try\<close>, and \<open>catch\<close>
  logs and falls through to \<open>return null\<close>.
\<close>

definition extractChannelId ::
  "(jsstring \<Rightarrow> jsstring option fetched) \<Rightarrow> jsstring \<Rightarrow> (exn + jsstring option) \<times> jsstring list"
where
  "extractChannelId lookup input0 =
     (if input0 = [] then (Inr None, [])
      else
        let input = trim_js input0 in
        if isChannelId input then (Inr (Some input), [])
        else
          (case channelMatch input of
             Some g \<Rightarrow> (Inr (Some g), [])
           | None \<Rightarrow>
               (case handleMatch input of
                  None \<Rightarrow> (Inr None, [])
                | Some g \<Rightarrow>
                    let handle = stripAt g in
                    (case encodeURIComponent handle of
                       Inl e \<Rightarrow> (Inr None, [])
                     | Inr q \<Rightarrow>
                         (case firstItemId (lookup q) of
                            Inl e \<Rightarrow> (Inr None, [q])
                          | Inr (Some v) \<Rightarrow> (Inr v, [q])
                          | Inr None \<Rightarrow> (Inr None, [q]))))))"

text \<open>
  The other variant (src/unnamed/part_000): the input is percent-decoded, a failure to
  decode is caught and gives \<open>null\<close>; the lookup is not inside any \<open>try\<close>, and the
  handle is interpolated as it is.
\<close>

definition extractChannelId_p0 ::
  "(jsstring \<Rightarrow> jsstring option fetched) \<Rightarrow> jsstring \<Rightarrow> (exn + jsstring option) \<times> jsstring list"
where
  "extractChannelId_p0 lookup input =
     (case decodeURIComponent input of
        Inl e \<Rightarrow> (Inr None, [])
      | Inr decodedInput \<Rightarrow>
          if isChannelId decodedInput then (Inr (Some decodedInput), [])
          else
            (case channelMatch decodedInput of
               Some g \<Rightarrow> (Inr (Some g), [])
             | None \<Rightarrow>
                 (case customMatch decodedInput of
                    None \<Rightarrow> (Inr None, [])
                  | Some customName \<Rightarrow>
                      (case firstItemId (lookup customName) of
                         Inl e \<Rightarrow> (Inl e, [customName])
                       | Inr (Some v) \<Rightarrow> (Inr v, [customName])
                       | Inr None \<Rightarrow> (Inr None, [customName])))))"

section \<open>Dates\<close>

text \<open>
  A \<open>Date\<close> holds a time value: milliseconds since the epoch, an integer. The calendar
  fields are those of ECMAScript's proleptic Gregorian calendar, written as the language
  specification defines them.
\<close>

definition msPerDay :: int where
  "msPerDay = 86400000"

definition Day :: "int \<Rightarrow> int" where
  "Day t = t div msPerDay"

definition DaysInYear :: "int \<Rightarrow> int" where
  "DaysInYear y =
     (if y mod 4 \<noteq> 0 then 365 else if y mod 100 \<noteq> 0 then 366
      else if y mod 400 \<noteq> 0 then 365 else 366)"

definition DayFromYear :: "int \<Rightarrow> int" where
  "DayFromYear y =
     365 * (y - 1970) + (y - 1969) div 4 - (y - 1901) div 100 + (y - 1601) div 400"

text \<open>
  \<open>YearFromTime t\<close> is the largest year that starts at or before \<open>t\<close>. It is computed
  from the mean length of a year, 146097 / 400 days, which is at most one year off.
\<close>

definition YearFromTime :: "int \<Rightarrow> int" where
  "YearFromTime t =
     (let d = Day t; y = 1970 + (400 * d) div 146097
      in if DayFromYear (y + 1) \<le> d then y + 1 else if d < DayFromYear y then y - 1 else y)"

definition InLeapYear :: "int \<Rightarrow> int" where
  "InLeapYear t = (if DaysInYear (YearFromTime t) = 366 then 1 else 0)"

definition DayWithinYear :: "int \<Rightarrow> int" where
  "DayWithinYear t = Day t - DayFromYear (YearFromTime t)"

text \<open>The day within the year on which month \<open>m\<close> (0 to 11) starts; \<open>m = 12\<close> is the year's end.\<close>

definition monthStart :: "int \<Rightarrow> int \<Rightarrow> int" where
  "monthStart leap m =
     (if m = 0 then 0 else if m = 1 then 31 else if m = 2 then 59 + leap
      else if m = 3 then 90 + leap else if m = 4 then 120 + leap
      else if m = 5 then 151 + leap else if m = 6 then 181 + leap
      else if m = 7 then 212 + leap else if m = 8 then 243 + leap
      else if m = 9 then 273 + leap else if m = 10 then 304 + leap
      else if m = 11 then 334 + leap else 365 + leap)"

definition MonthFromTime :: "int \<Rightarrow> int" where
  "MonthFromTime t =
     (let d = DayWithinYear t; leap = InLeapYear t
      in if d < monthStart leap 1 then 0 else if d < monthStart leap 2 then 1
         else if d < monthStart leap 3 then 2 else if d < monthStart leap 4 then 3
         else if d < monthStart leap 5 then 4 else if d < monthStart leap 6 then 5
         else if d < monthStart leap 7 then 6 else if d < monthStart leap 8 then 7
         else if d < monthStart leap 9 then 8 else if d < monthStart leap 10 then 9
         else if d < monthStart leap 11 then 10 else 11)"

definition DateFromTime :: "int \<Rightarrow> int" where
  "DateFromTime t = DayWithinYear t - monthStart (InLeapYear t) (MonthFromTime t) + 1"

definition MakeDay :: "int \<Rightarrow> int \<Rightarrow> int \<Rightarrow> int" where
  "MakeDay year month date =
     (let ym = year + month div 12; mn = month mod 12
      in DayFromYear ym + monthStart (if DaysInYear ym = 366 then 1 else 0) mn + date - 1)"

text \<open>
  The local time zone of the host gives the offset from UTC, in milliseconds, that is in
  force at each instant, so that daylight saving time moves it: \<open>utcOffset\<close> is the
  offset at a UTC time value (\<open>LocalTZA(t, true)\<close>) and \<open>localOffset\<close> the offset by
  which a local time value is read (\<open>LocalTZA(t, false)\<close>).
\<close>

record timezone =
  utcOffset :: "int \<Rightarrow> int"
  localOffset :: "int \<Rightarrow> int"

definition LocalTime :: "timezone \<Rightarrow> int \<Rightarrow> int" where
  "LocalTime tz t = t + utcOffset tz t"

definition UTC :: "timezone \<Rightarrow> int \<Rightarrow> int" where
  "UTC tz t = t - localOffset tz t"

definition getFullYear :: "timezone \<Rightarrow> int \<Rightarrow> int" where
  "getFullYear tz t = YearFromTime (LocalTime tz t)"

definition getMonth :: "timezone \<Rightarrow> int \<Rightarrow> int" where
  "getMonth tz t = MonthFromTime (LocalTime tz t)"

definition getDate :: "timezone \<Rightarrow> int \<Rightarrow> int" where
  "getDate tz t = DateFromTime (LocalTime tz t)"

text \<open>
  \<^verbatim>\<open>new Date(year, month, date)\<close>: local midnight of the day; a year from 0 to 99 means
  1900 + year.
\<close>

definition newDate :: "timezone \<Rightarrow> int \<Rightarrow> int \<Rightarrow> int \<Rightarrow> int" where
  "newDate tz year month date =
     (let yr = (if 0 \<le> year \<and> year \<le> 99 then 1900 + year else year)
      in UTC tz (MakeDay yr month date * msPerDay))"

text \<open>The decimal text of an integer, as a template literal interpolates it.\<close>

fun digits :: "nat \<Rightarrow> jsstring" where
  "digits n = (if n < 10 then [0x30 + n] else digits (n div 10) @ [0x30 + n mod 10])"

declare digits.simps [simp del]

definition showInt :: "int \<Rightarrow> jsstring" where
  "showInt i = (if i < 0 then 0x2D # digits (nat (- i)) else digits (nat i))"

section \<open>\<open>calculateChannelAge\<close>\<close>

text \<open>
  The three components of the age: \<open>now\<close> is the time value of \<^verbatim>\<open>new Date()\<close> and
  \<open>created\<close> that of \<^verbatim>\<open>new Date(creationDate)\<close>.
\<close>

definition ageParts :: "timezone \<Rightarrow> int \<Rightarrow> int \<Rightarrow> int \<times> int \<times> int" where
  "ageParts tz now created =
     (let years = getFullYear tz now - getFullYear tz created;
          months = getMonth tz now - getMonth tz created;
          days = getDate tz now - getDate tz created;
          (months, days) =
            (if days < 0
             then (months - 1,
                   days + getDate tz (newDate tz (getFullYear tz now) (getMonth tz now) 0))
             else (months, days));
          (years, months) = (if months < 0 then (years - 1, months + 12) else (years, months))
      in (years, months, days))"

text \<open>
  \<open>calculateChannelAge\<close> returns \<open>accountAge\<close> and \<open>age_days\<close>. \<open>created\<close> is \<open>None\<close>
  when the creation date does not parse (an invalid \<open>Date\<close>): then every component is
  \<open>NaN\<close>, no comparison holds, and \<open>age_days\<close> is \<open>NaN\<close> (\<open>None\<close>).
  \<open>Math.floor\<close> of the quotient is the floor division of the integers: the quotient of
  two time values is an exact multiple of \<open>1 / 86400000\<close>, and a double keeps it away
  from the next integer as long as it is below \<open>2 ^ 27\<close> days.
\<close>

definition calculateChannelAge ::
  "timezone \<Rightarrow> int \<Rightarrow> int option \<Rightarrow> jsstring \<times> int option"
where
  "calculateChannelAge tz now creation =
     (case creation of
        None \<Rightarrow> (js ''NaN years, NaN months, NaN days'', None)
      | Some created \<Rightarrow>
          (let (years, months, days) = ageParts tz now created;
               totalDays = (now - created) div (1000 * 60 * 60 * 24)
           in (showInt years @ js '' years, '' @ showInt months @ js '' months, '' @
               showInt days @ js '' days'',
               Some totalDays)))"

text \<open>
  The calendar difference in the words of the specification: where the day component
  goes negative, the number of days of the calendar month before the month of \<open>now\<close>
  is borrowed and the months are decremented; where the months then go negative, 12 is
  added and the years are decremented. Months count from 0, as \<open>getMonth\<close> does.
\<close>

definition isLeapYear :: "int \<Rightarrow> bool" where
  "isLeapYear y \<longleftrightarrow> y mod 4 = 0 \<and> (y mod 100 \<noteq> 0 \<or> y mod 400 = 0)"

definition daysInMonth :: "int \<Rightarrow> int \<Rightarrow> int" where
  "daysInMonth y m =
     (if m = 1 then (if isLeapYear y then 29 else 28)
      else if m = 3 \<or> m = 5 \<or> m = 8 \<or> m = 10 then 30 else 31)"

definition precedingMonthLength :: "int \<Rightarrow> int \<Rightarrow> int" where
  "precedingMonthLength y m = (if m = 0 then daysInMonth (y - 1) 11 else daysInMonth y (m - 1))"

definition calendarDifference :: "int \<times> int \<times> int \<Rightarrow> int \<times> int \<times> int \<Rightarrow> int \<times> int \<times> int" where
  "calendarDifference n c =
     (case (n, c) of
        ((ny, nm, nd), (cy, cm, cd)) \<Rightarrow>
          (let d0 = nd - cd;
               m0 = nm - cm;
               y0 = ny - cy;
               d1 = (if d0 < 0 then d0 + precedingMonthLength ny nm else d0);
               m1 = (if d0 < 0 then m0 - 1 else m0);
               m2 = (if m1 < 0 then m1 + 12 else m1);
               y1 = (if m1 < 0 then y0 - 1 else y0)
           in (y1, m2, d1)))"

section \<open>Normalising the upstream payload\<close>

text \<open>
  \<open>parseInt\<close> without a radix: leading white space is skipped, a sign is read, a prefix
  \<open>0x\<close> or \<open>0X\<close> selects radix 16, and the longest run of digits is the value; no digit
  gives \<open>NaN\<close> (\<open>None\<close>). The value is the mathematical integer. The program's number
  is the double nearest to it, which is that integer as long as its magnitude is at most
  \<open>2 ^ 53\<close>; beyond that the program's value is a rounded one, which the model does not
  give, so what is proved of a value of \<open>parseInt\<close> is stated for integers within that
  bound or does not depend on the rounding.
\<close>

definition radixDigit :: "nat \<Rightarrow> nat \<Rightarrow> nat option" where
  "radixDigit R c = (case hexDigit c of None \<Rightarrow> None | Some v \<Rightarrow> if v < R then Some v else None)"

fun digitsValue :: "nat \<Rightarrow> nat \<Rightarrow> jsstring \<Rightarrow> nat" where
  "digitsValue R acc [] = acc"
| "digitsValue R acc (c # cs) =
     (case radixDigit R c of None \<Rightarrow> acc | Some v \<Rightarrow> digitsValue R (acc * R + v) cs)"

definition parseInt :: "jsstring \<Rightarrow> int option" where
  "parseInt inputString =
     (let S0 = dropWhile isWhiteSpace inputString;
          sign = (case S0 of c # _ \<Rightarrow> if c = 0x2D then - 1 else 1 | [] \<Rightarrow> (1::int));
          S1 = (case S0 of c # cs \<Rightarrow> if c = 0x2B \<or> c = 0x2D then cs else S0 | [] \<Rightarrow> S0);
          hex = (case S1 of a # b # _ \<Rightarrow> a = 0x30 \<and> (b = 0x78 \<or> b = 0x58) | _ \<Rightarrow> False);
          R = (if hex then 16 else 10);
          S2 = (if hex then drop 2 S1 else S1)
      in case S2 of
           [] \<Rightarrow> None
         | c # _ \<Rightarrow>
             (case radixDigit R c of
                None \<Rightarrow> None
              | Some _ \<Rightarrow> Some (sign * int (digitsValue R 0 S2))))"

text \<open>
  \<^verbatim>\<open>v || d\<close> for a string property \<open>v\<close> that may be absent: \<open>undefined\<close> and the empty
  string are falsy.
\<close>

definition orDefault :: "jsstring option \<Rightarrow> jsstring \<Rightarrow> jsstring" where
  "orDefault v d = (case v of None \<Rightarrow> d | Some s \<Rightarrow> if s = [] then d else s)"

text \<open>
  An item of the metadata lookup. A property that is absent is \<open>None\<close>;
  \<open>snippet_thumbnail\<close> is \<^verbatim>\<open>snippet.thumbnails?.default?.url\<close>.
\<close>

record snippet =
  snippet_title :: "jsstring option"
  snippet_publishedAt :: "jsstring option"
  snippet_thumbnail :: "jsstring option"
  snippet_country :: "jsstring option"
  snippet_description :: "jsstring option"

record statistics =
  subscriberCount :: "jsstring option"

record channel =
  item_id :: "jsstring option"
  item_snippet :: "snippet option"
  item_statistics :: "statistics option"

text \<open>
  The object \<open>responseData\<close>. \<open>age_days\<close> and \<open>subscribers\<close> are numbers, \<open>None\<close> for
  \<open>NaN\<close>; \<open>description\<close> is a property of the variant part_000 only.
\<close>

record snapshot =
  channel_id :: "jsstring option"
  channel_name :: jsstring
  profile_image_url :: jsstring
  creation_date :: "jsstring option"
  account_age :: jsstring
  age_days :: "int option"
  country :: jsstring
  verification_status :: jsstring
  accuracy :: jsstring
  subscribers :: "int option"
  description :: "jsstring option"

text \<open>
  What a request meets outside the program: the two upstream endpoints (named by the
  text interpolated into the URL), \<open>Date\<close> parsing of the creation date (\<open>None\<close> for an
  invalid date), the local time zone, and the clock at its three readings: at the
  cache check, in \<open>calculateChannelAge\<close> and at \<open>cache.set\<close>.
\<close>

record env =
  lookupHandle :: "jsstring \<Rightarrow> jsstring option fetched"
  fetchChannel :: "jsstring \<Rightarrow> channel fetched"
  parseDate :: "jsstring \<Rightarrow> int option"
  timeZone :: timezone
  clock_check :: int
  clock_age :: int
  clock_store :: int

definition responseData :: "env \<Rightarrow> bool \<Rightarrow> channel \<Rightarrow> exn + snapshot" where
  "responseData e withDescription channel =
     (case item_snippet channel of
        None \<Rightarrow> Inl TypeError
      | Some sn \<Rightarrow>
          (let creationDate = snippet_publishedAt sn;
               (accountAge, ageDays) =
                 calculateChannelAge (timeZone e) (clock_age e)
                   (case creationDate of None \<Rightarrow> None | Some s \<Rightarrow> parseDate e s)
           in case item_statistics channel of
                None \<Rightarrow> Inl TypeError
              | Some st \<Rightarrow>
                  (let subscriberCount = parseInt (orDefault (subscriberCount st) (js ''0''));
                       verificationStatus =
                         (if (case subscriberCount of None \<Rightarrow> False | Some n \<Rightarrow> 100000 \<le> n)
                          then js ''Verified'' else js ''Not Verified'')
                   in Inr \<lparr>channel_id = item_id channel,
                           channel_name = orDefault (snippet_title sn) (js ''N/A''),
                           profile_image_url =
                             orDefault (snippet_thumbnail sn) (js ''https://via.placeholder.com/50''),
                           creation_date = creationDate,
                           account_age = accountAge,
                           age_days = ageDays,
                           country = orDefault (snippet_country sn) (js ''N/A''),
                           verification_status = verificationStatus,
                           accuracy = js ''Exact'',
                           subscribers = subscriberCount,
                           description =
                             (if withDescription
                              then Some (orDefault (snippet_description sn) (js ''N/A''))
                              else None)\<rparr>)))"

text \<open>
  The \<open>try\<close> block of a request up to \<open>responseData\<close>: the metadata fetch, the check of
  \<open>response.ok\<close>, the parsed body and its first item.
\<close>

datatype fetch_outcome = UpstreamStatus nat | NotFound | Fetched snapshot

definition fetchSnapshot :: "env \<Rightarrow> bool \<Rightarrow> jsstring \<Rightarrow> exn + fetch_outcome" where
  "fetchSnapshot e withDescription channelId =
     (case fetchChannel e channelId of
        FetchRejected \<Rightarrow> Inl FetchError
      | Responded status b \<Rightarrow>
          if \<not> (200 \<le> status \<and> status \<le> 299) then Inr (UpstreamStatus status)
          else
            (case b of
               Rejected \<Rightarrow> Inl FetchError
             | Fulfilled JsonNull \<Rightarrow> Inl TypeError
             | Fulfilled (JsonValue None) \<Rightarrow> Inr NotFound
             | Fulfilled (JsonValue (Some [])) \<Rightarrow> Inr NotFound
             | Fulfilled (JsonValue (Some (channel # _))) \<Rightarrow>
                 map_sum id Fetched (responseData e withDescription channel)))"

section \<open>The cache and the request handlers\<close>

record cache_entry =
  data :: snapshot
  timestamp :: int

type_synonym cache = "jsstring \<rightharpoonup> cache_entry"

definition CACHE_TTL :: int where
  "CACHE_TTL = 24 * 60 * 60 * 1000"

text \<open>
  \<^verbatim>\<open>const cached = cache.get(cacheKey);
  if (cached && (Date.now() - cached.timestamp) < CACHE_TTL)\<close>: the entry when the
  condition holds.
\<close>

definition cacheHit :: "cache \<Rightarrow> jsstring \<Rightarrow> int \<Rightarrow> cache_entry option" where
  "cacheHit cache cacheKey now =
     (case cache cacheKey of
        None \<Rightarrow> None
      | Some cached \<Rightarrow> if now - timestamp cached < CACHE_TTL then Some cached else None)"

text \<open>
  A response is \<^verbatim>\<open>res.json({...snapshot, is_cached})\<close> with status 200 (\<open>is_cached\<close> is
  \<open>None\<close> where the payload has no such property) or \<^verbatim>\<open>res.status(n).json({error})\<close>.
  A handler gives its response, or \<open>Inl\<close> when its promise rejects and nothing is sent,
  the cache it leaves, and the upstream calls it made.
\<close>

datatype response = Json snapshot "bool option" | ErrorJson nat jsstring

datatype upstreamCall = HandleLookup jsstring | ChannelFetch jsstring

type_synonym handled = "(exn + response) \<times> cache \<times> upstreamCall list"

text \<open>youtube-backend.js: \<^verbatim>\<open>app.post('/api/youtube-age', ...)\<close>; the cache key is the channel ID.\<close>

definition postYoutubeAge :: "env \<Rightarrow> cache \<Rightarrow> jsstring option \<Rightarrow> handled" where
  "postYoutubeAge e cache channelInput =
     (case channelInput of
        None \<Rightarrow> (Inr (ErrorJson 400 (js ''Channel URL or ID is required'')), cache, [])
      | Some inp \<Rightarrow>
          if inp = [] then (Inr (ErrorJson 400 (js ''Channel URL or ID is required'')), cache, [])
          else
            (case extractChannelId (lookupHandle e) inp of
               (Inl x, qs) \<Rightarrow> (Inl x, cache, map HandleLookup qs)
             | (Inr None, qs) \<Rightarrow>
                 (Inr (ErrorJson 400 (js ''Invalid channel URL or ID'')), cache, map HandleLookup qs)
             | (Inr (Some channelId), qs) \<Rightarrow>
                 if channelId = []
                 then (Inr (ErrorJson 400 (js ''Invalid channel URL or ID'')), cache,
                       map HandleLookup qs)
                 else
                   (case cacheHit cache channelId (clock_check e) of
                      Some cached \<Rightarrow> (Inr (Json (data cached) (Some True)), cache, map HandleLookup qs)
                    | None \<Rightarrow>
                        (let calls = map HandleLookup qs @ [ChannelFetch channelId]
                         in case fetchSnapshot e False channelId of
                              Inl x \<Rightarrow>
                                (Inr (ErrorJson 500 (js ''Could not fetch channel data'')), cache, calls)
                            | Inr (UpstreamStatus status) \<Rightarrow>
                                (Inr (ErrorJson status (js ''Failed to fetch channel data'')), cache,
                                 calls)
                            | Inr NotFound \<Rightarrow>
                                (Inr (ErrorJson 404 (js ''Channel not found'')), cache, calls)
                            | Inr (Fetched rd) \<Rightarrow>
                                (Inr (Json rd (Some False)),
                                 cache(channelId \<mapsto> \<lparr>data = rd, timestamp = clock_store e\<rparr>),
                                 calls)))))"

text \<open>
  part_000: \<open>handleChannelRequest\<close>; the cache key is the raw input, looked up before
  the input is resolved, and \<open>extractChannelId\<close> is awaited outside the \<open>try\<close> block.
\<close>

definition handleChannelRequest :: "env \<Rightarrow> cache \<Rightarrow> jsstring \<Rightarrow> handled" where
  "handleChannelRequest e cache channelInput =
     (case cacheHit cache channelInput (clock_check e) of
        Some cached \<Rightarrow> (Inr (Json (data cached) None), cache, [])
      | None \<Rightarrow>
          (case extractChannelId_p0 (lookupHandle e) channelInput of
             (Inl x, qs) \<Rightarrow> (Inl x, cache, map HandleLookup qs)
           | (Inr None, qs) \<Rightarrow>
               (Inr (ErrorJson 400 (js ''Invalid channel URL, handle, or ID'')), cache,
                map HandleLookup qs)
           | (Inr (Some channelId), qs) \<Rightarrow>
               if channelId = []
               then (Inr (ErrorJson 400 (js ''Invalid channel URL, handle, or ID'')), cache,
                     map HandleLookup qs)
               else
                 (let calls = map HandleLookup qs @ [ChannelFetch channelId]
                  in case fetchSnapshot e True channelId of
                       Inl x \<Rightarrow>
                         (Inr (ErrorJson 500 (js ''Could not fetch channel data'')), cache, calls)
                     | Inr (UpstreamStatus status) \<Rightarrow>
                         (Inr (ErrorJson status
                                (js ''Failed to fetch channel data: HTTP '' @ showInt (int status))),
                          cache, calls)
                     | Inr NotFound \<Rightarrow>
                         (Inr (ErrorJson 404 (js ''Channel not found'')), cache, calls)
                     | Inr (Fetched rd) \<Rightarrow>
                         (Inr (Json rd None),
                          cache(channelInput \<mapsto> \<lparr>data = rd, timestamp = clock_store e\<rparr>),
                          calls))))"

text \<open>
  part_000: the GET and the POST route, which differ only in where \<open>channelInput\<close>
  comes from (\<open>None\<close> when the request has none).
\<close>

definition routeYoutubeAge_p0 :: "env \<Rightarrow> cache \<Rightarrow> jsstring option \<Rightarrow> handled" where
  "routeYoutubeAge_p0 e cache channelInput =
     (case channelInput of
        None \<Rightarrow>
          (Inr (ErrorJson 400 (js ''Channel URL, handle, or ID is required'')), cache, [])
      | Some inp \<Rightarrow>
          if inp = []
          then (Inr (ErrorJson 400 (js ''Channel URL, handle, or ID is required'')), cache, [])
          else handleChannelRequest e cache inp)"

text \<open>
  The time value of midnight UTC on a calendar day, as \<open>Date.UTC\<close> computes it
  (months count from 0), used to write down the instants of a scenario.
\<close>

definition Date_UTC :: "int \<Rightarrow> int \<Rightarrow> int \<Rightarrow> int" where
  "Date_UTC year month date = MakeDay year month date * msPerDay"

definition msPerHour :: int where
  "msPerHour = 3600000"

text \<open>
  What relates the two readings of a time zone where \<^verbatim>\<open>new Date(year, month, 0)\<close> is
  used: the local midnight that starts day \<open>d\<close>, made a time value and read back as
  local time, is on day \<open>d\<close>. It holds where the two offsets agree, and where the
  midnight falls into the gap of a clock change and is read the gap later on the same day.
\<close>

definition readsBackSameDay :: "timezone \<Rightarrow> int \<Rightarrow> bool" where
  "readsBackSameDay tz d \<longleftrightarrow> Day (LocalTime tz (UTC tz (d * msPerDay))) = d"

text \<open>The quotient of two integers truncated toward zero, in the words of the specification.\<close>

definition truncQuotient :: "int \<Rightarrow> int \<Rightarrow> int" where
  "truncQuotient a b = sgn a * sgn b * (\<bar>a\<bar> div \<bar>b\<bar>)"

text \<open>
  The caches that the routes of part_000 can build, starting from the empty cache of a
  fresh process: each request leaves the cache for the next one.
\<close>

inductive reachable_p0 :: "cache \<Rightarrow> bool" where
  fresh: "reachable_p0 Map.empty"
| request: "reachable_p0 c \<Longrightarrow> routeYoutubeAge_p0 e c i = (r, c', calls) \<Longrightarrow> reachable_p0 c'"


section \<open>Example data\<close>

text \<open>
  A channel, its upstream item and an environment in which the handle \<open>MrBeast\<close>
  resolves to it, for evaluating the functions on concrete requests.
\<close>

definition fixedZone :: "int \<Rightarrow> timezone" where
  "fixedZone offset = \<lparr>utcOffset = (\<lambda>t. offset), localOffset = (\<lambda>t. offset)\<rparr>"

text \<open>
  A zone with daylight saving time: America/New_York under the rules in force since
  2007. Clocks go from 02:00 EST (UTC - 5 h) to 03:00 EDT (UTC - 4 h) on the second Sunday
  of March and back from 02:00 EDT to 01:00 EST on the first Sunday of November. A local
  time in the gap or in the repeated hour is read with the offset in force before the
  change. Day 0 of the epoch is a Thursday, so a day \<open>d\<close> is a Sunday when
  \<open>(d + 4) mod 7 = 0\<close>.
\<close>

definition sundayOnOrAfter :: "int \<Rightarrow> int" where
  "sundayOnOrAfter d = d + (7 - (d + 4) mod 7) mod 7"

definition dstStartDay :: "int \<Rightarrow> int" where
  "dstStartDay y = sundayOnOrAfter (MakeDay y 2 8)"

definition dstEndDay :: "int \<Rightarrow> int" where
  "dstEndDay y = sundayOnOrAfter (MakeDay y 10 1)"

definition newYorkZone :: timezone where
  "newYorkZone =
     \<lparr>utcOffset =
        (\<lambda>t. let y = YearFromTime t
             in if dstStartDay y * msPerDay + 7 * msPerHour \<le> t \<and>
                   t < dstEndDay y * msPerDay + 6 * msPerHour
                then - 4 * msPerHour else - 5 * msPerHour),
      localOffset =
        (\<lambda>t. let y = YearFromTime t
             in if dstStartDay y * msPerDay + 3 * msPerHour \<le> t \<and>
                   t < dstEndDay y * msPerDay + 2 * msPerHour
                then - 4 * msPerHour else - 5 * msPerHour)\<rparr>"

definition exampleId :: jsstring where
  "exampleId = js ''UCX6OQ3DkcsbYNE6H8uQQuVA''"

definition exampleChannel :: channel where
  "exampleChannel =
     \<lparr>item_id = Some exampleId,
      item_snippet =
        Some \<lparr>snippet_title = Some (js ''MrBeast''),
              snippet_publishedAt = Some (js ''2020-03-15T00:00:00Z''),
              snippet_thumbnail = None,
              snippet_country = Some (js ''US''),
              snippet_description = None\<rparr>,
      item_statistics = Some \<lparr>subscriberCount = Some (js ''100000'')\<rparr>\<rparr>"

definition exampleEnv :: env where
  "exampleEnv =
     \<lparr>lookupHandle =
        (\<lambda>q. if q = js ''MrBeast''
             then Responded 200 (Fulfilled (JsonValue (Some [Some exampleId])))
             else Responded 200 (Fulfilled (JsonValue (Some [])))),
      fetchChannel =
        (\<lambda>i. if i = exampleId
             then Responded 200 (Fulfilled (JsonValue (Some [exampleChannel])))
             else Responded 200 (Fulfilled (JsonValue (Some [])))),
      parseDate = (\<lambda>s. if s = js ''2020-03-15T00:00:00Z'' then Some (Date_UTC 2020 2 15) else None),
      timeZone = fixedZone 0,
      clock_check = Date_UTC 2024 2 10,
      clock_age = Date_UTC 2024 2 10,
      clock_store = Date_UTC 2024 2 10\<rparr>"

text \<open>The snapshot of the example channel in that environment.\<close>

definition exampleSnapshot :: snapshot where
  "exampleSnapshot =
     \<lparr>channel_id = Some exampleId,
      channel_name = js ''MrBeast'',
      profile_image_url = js ''https://via.placeholder.com/50'',
      creation_date = Some (js ''2020-03-15T00:00:00Z''),
      account_age = js ''3 years, 11 months, 24 days'',
      age_days = Some 1456,
      country = js ''US'',
      verification_status = js ''Verified'',
      accuracy = js ''Exact'',
      subscribers = Some 100000,
      description = None\<rparr>"

section \<open>Canonical channel IDs\<close>

lemmas parseInt_eval = parseInt_def js_def radixDigit_def hexDigit_def isWhiteSpace_def Let_def

lemma js_UC: "js ''UC'' = [0x55, 0x43]"
  by (simp add: js_def)

lemma idChar_not_space: "idChar c \<Longrightarrow> \<not> isWhiteSpace c"
  by (auto simp: idChar_def isWhiteSpace_def)

lemma idChar_not_percent: "idChar c \<Longrightarrow> c \<noteq> 0x25"
  by (auto simp: idChar_def)

lemma dropWhile_none: "xs \<noteq> [] \<Longrightarrow> \<not> P (hd xs) \<Longrightarrow> dropWhile P xs = xs"
  by (cases xs) simp_all

lemma trim_js_id:
  assumes "s \<noteq> []" and "\<not> isWhiteSpace (hd s)" and "\<not> isWhiteSpace (last s)"
  shows "trim_js s = s"
proof -
  have a: "dropWhile isWhiteSpace s = s"
    using assms(1,2) by (rule dropWhile_none)
  have b: "dropWhile isWhiteSpace (rev s) = rev s"
    using assms(1,3) by (intro dropWhile_none) (simp_all add: hd_rev)
  show ?thesis by (simp add: trim_js_def a b)
qed

lemma decodeURIComponent_plain: "0x25 \<notin> set s \<Longrightarrow> decodeURIComponent s = Inr s"
  by (induction s) simp_all

lemma canonical_shape:
  assumes "length r = 22" and "\<forall>c\<in>set r. idChar c"
  shows "isChannelId (js ''UC'' @ r)"
  using assms by (simp add: isChannelId_def js_UC list_all_iff)

text \<open>
  Claim C1. An input that is \<open>UC\<close> followed by exactly 22 characters of the class
  \<open>[0-9A-Za-z_-]\<close> is returned as it is by \<open>extractChannelId\<close>, in both variants, and
  no handle lookup is sent.
\<close>

theorem canonical_id_returned_unchanged:
  assumes "length r = 22" and "\<forall>c\<in>set r. idChar c"
  shows "extractChannelId lookup (js ''UC'' @ r) = (Inr (Some (js ''UC'' @ r)), []) \<and>
         extractChannelId_p0 lookup (js ''UC'' @ r) = (Inr (Some (js ''UC'' @ r)), [])"
proof -
  let ?s = "js ''UC'' @ r"
  have shape: "isChannelId ?s" using assms by (rule canonical_shape)
  have ne: "?s \<noteq> []" by (simp add: js_UC)
  have hd: "\<not> isWhiteSpace (hd ?s)" by (simp add: js_UC isWhiteSpace_def)
  have "r \<noteq> []" using assms(1) by auto
  then have "last ?s = last r" by simp
  moreover have "idChar (last r)" using assms(2) \<open>r \<noteq> []\<close> by simp
  ultimately have lst: "\<not> isWhiteSpace (last ?s)" by (simp add: idChar_not_space)
  have tr: "trim_js ?s = ?s" using ne hd lst by (rule trim_js_id)
  have "0x25 \<notin> set ?s" using assms(2) idChar_not_percent by (auto simp: js_UC)
  then have dec: "decodeURIComponent ?s = Inr ?s" by (rule decodeURIComponent_plain)
  have 1: "extractChannelId lookup ?s = (Inr (Some ?s), [])"
    using ne shape tr by (simp add: extractChannelId_def Let_def)
  have 2: "extractChannelId_p0 lookup ?s = (Inr (Some ?s), [])"
    using shape dec by (simp add: extractChannelId_p0_def)
  from 1 2 show ?thesis by simp
qed

theorem canonical_id_returned_unchanged_witness:
  "extractChannelId (\<lambda>q. FetchRejected) (js ''UCX6OQ3DkcsbYNE6H8uQQuVA'') = (Inr (Some (js ''UCX6OQ3DkcsbYNE6H8uQQuVA'')), []) \<and>
   extractChannelId_p0 (\<lambda>q. FetchRejected) (js ''UCX6OQ3DkcsbYNE6H8uQQuVA'') = (Inr (Some (js ''UCX6OQ3DkcsbYNE6H8uQQuVA'')), [])"
proof -
  have l: "length (js ''X6OQ3DkcsbYNE6H8uQQuVA'') = 22" by (simp add: js_def)
  have c: "\<forall>c\<in>set (js ''X6OQ3DkcsbYNE6H8uQQuVA''). idChar c" by (simp add: js_def idChar_def)
  have e: "js ''UC'' @ js ''X6OQ3DkcsbYNE6H8uQQuVA'' = js ''UCX6OQ3DkcsbYNE6H8uQQuVA''" by (simp add: js_def)
  show ?thesis
    using canonical_id_returned_unchanged [OF l c, of "\<lambda>q. FetchRejected"] unfolding e .
qed

section \<open>The calendar\<close>

lemma div_bounds: "0 < k \<Longrightarrow> k * (a div k) \<le> (a::int) \<and> a < k * (a div k) + k"
  using mult_div_mod_eq [of k a] pos_mod_sign [of k a] pos_mod_bound [of k a] by linarith

lemma DayFromYear_upper: "400 * DayFromYear y \<le> 146097 * (y - 1970) + 589"
proof -
  define a where "a = (y - 1969) div 4"
  define b where "b = (y - 1901) div 100"
  define c where "c = (y - 1601) div 400"
  have A: "4 * a \<le> y - 1969"
    unfolding a_def using div_bounds [of 4 "y - 1969"] by simp
  have B: "y - 1901 < 100 * b + 100"
    unfolding b_def using div_bounds [of 100 "y - 1901"] by simp
  have C: "400 * c \<le> y - 1601"
    unfolding c_def using div_bounds [of 400 "y - 1601"] by simp
  have 1: "400 * a \<le> 100 * (y - 1969)" using A by simp
  have 2: "4 * (y - 1901) \<le> 400 * b + 396" using B by simp
  have 3: "400 * DayFromYear y = 146000 * (y - 1970) + 400 * a - 400 * b + 400 * c"
    by (simp add: DayFromYear_def a_def b_def c_def)
  show ?thesis using 1 2 3 C by simp
qed

lemma DayFromYear_lower: "146097 * (y - 1970) - 506 \<le> 400 * DayFromYear y"
proof -
  define a where "a = (y - 1969) div 4"
  define b where "b = (y - 1901) div 100"
  define c where "c = (y - 1601) div 400"
  have A: "y - 1969 < 4 * a + 4"
    unfolding a_def using div_bounds [of 4 "y - 1969"] by simp
  have B: "100 * b \<le> y - 1901"
    unfolding b_def using div_bounds [of 100 "y - 1901"] by simp
  have C: "y - 1601 < 400 * c + 400"
    unfolding c_def using div_bounds [of 400 "y - 1601"] by simp
  have 1: "100 * (y - 1969) \<le> 400 * a + 300" using A by simp
  have 2: "400 * b \<le> 4 * (y - 1901)" using B by simp
  have 3: "400 * DayFromYear y = 146000 * (y - 1970) + 400 * a - 400 * b + 400 * c"
    by (simp add: DayFromYear_def a_def b_def c_def)
  show ?thesis using 1 2 3 C by simp
qed

lemma YearFromTime_spec:
  "DayFromYear (YearFromTime t) \<le> Day t \<and> Day t < DayFromYear (YearFromTime t + 1)"
proof -
  define d where "d = Day t"
  define c where "c = (400 * d) div 146097"
  have c1: "146097 * c \<le> 400 * d" and c2: "400 * d < 146097 * c + 146097"
    unfolding c_def using div_bounds [of 146097 "400 * d"] by simp_all
  have up: "400 * DayFromYear (1970 + c - 1) \<le> 146097 * c - 145508"
    using DayFromYear_upper [of "1970 + c - 1"] by simp
  have lo: "146097 * c + 291688 \<le> 400 * DayFromYear (1970 + c + 1 + 1)"
    using DayFromYear_lower [of "1970 + c + 1 + 1"] by simp
  have a: "DayFromYear (1970 + c - 1) \<le> d" using up c1 by simp
  have b: "d < DayFromYear (1970 + c + 1 + 1)" using lo c2 by simp
  show ?thesis
    using a b by (simp add: YearFromTime_def Let_def d_def [symmetric] c_def [symmetric])
qed

lemma div_succ:
  assumes "0 < k"
  shows "((a::int) + 1) div k = a div k + (if k dvd a + 1 then 1 else 0)"
proof (cases "k dvd a + 1")
  case True
  then obtain q where q: "a + 1 = k * q" ..
  have "a = k * (q - 1) + (k - 1)" using q by (simp add: algebra_simps)
  then have "a div k = q - 1"
    using assms int_div_pos_eq [of a k "q - 1" "k - 1"] by simp
  moreover have "(a + 1) div k = q" using q assms by simp
  ultimately show ?thesis using True by simp
next
  case False
  define r where "r = (a + 1) mod k"
  have "r \<noteq> 0" using False by (simp add: r_def dvd_eq_mod_eq_0)
  moreover have "0 \<le> r" "r < k" using assms by (simp_all add: r_def)
  ultimately have r: "0 \<le> r - 1" "r - 1 < k" by simp_all
  have "a + 1 = k * ((a + 1) div k) + r" by (simp add: r_def)
  then have "a = k * ((a + 1) div k) + (r - 1)" by simp
  then have "a div k = (a + 1) div k"
    using r int_div_pos_eq [of a k "(a + 1) div k" "r - 1"] by simp
  then show ?thesis using False by simp
qed

lemma leap_dvd:
  "DaysInYear y = (if 4 dvd y \<and> (\<not> 100 dvd y \<or> 400 dvd y) then 366 else 365)"
proof -
  have "(4::int) dvd 100" "(100::int) dvd 400" by simp_all
  then have "100 dvd y \<Longrightarrow> 4 dvd y" "400 dvd y \<Longrightarrow> 100 dvd y"
    using dvd_trans by blast+
  then show ?thesis by (auto simp: DaysInYear_def dvd_eq_mod_eq_0 [symmetric])
qed

lemma DayFromYear_step: "DayFromYear (y + 1) = DayFromYear y + DaysInYear y"
proof -
  have d4: "4 dvd y - 1969 + 1 \<longleftrightarrow> 4 dvd y"
    using dvd_diff_left_iff [of 4 1968 y] by simp
  have d100: "100 dvd y - 1901 + 1 \<longleftrightarrow> 100 dvd y"
    using dvd_diff_left_iff [of 100 1900 y] by simp
  have d400: "400 dvd y - 1601 + 1 \<longleftrightarrow> 400 dvd y"
    using dvd_diff_left_iff [of 400 1600 y] by simp
  have a: "(y + 1 - 1969) div 4 = (y - 1969) div 4 + (if 4 dvd y then 1 else 0)"
    using div_succ [of 4 "y - 1969"] unfolding d4 by (simp add: algebra_simps)
  have b: "(y + 1 - 1901) div 100 = (y - 1901) div 100 + (if 100 dvd y then 1 else 0)"
    using div_succ [of 100 "y - 1901"] unfolding d100 by (simp add: algebra_simps)
  have c: "(y + 1 - 1601) div 400 = (y - 1601) div 400 + (if 400 dvd y then 1 else 0)"
    using div_succ [of 400 "y - 1601"] unfolding d400 by (simp add: algebra_simps)
  have "(4::int) dvd 100" "(100::int) dvd 400" by simp_all
  then have e: "100 dvd y \<Longrightarrow> 4 dvd y" "400 dvd y \<Longrightarrow> 100 dvd y"
    using dvd_trans by blast+
  show ?thesis
    unfolding DayFromYear_def leap_dvd a b c using e by auto
qed


lemma DayFromYear_less: "y < y' \<Longrightarrow> DayFromYear y < DayFromYear y'"
proof -
  assume "y < y'"
  then have "146097 * (y - 1970) + 589 < 146097 * (y' - 1970) - 506" by simp
  then have "400 * DayFromYear y < 400 * DayFromYear y'"
    using DayFromYear_upper [of y] DayFromYear_lower [of y'] by linarith
  then show ?thesis by simp
qed

lemma YearFromTime_unique:
  assumes "DayFromYear y \<le> Day t" and "Day t < DayFromYear (y + 1)"
  shows "YearFromTime t = y"
proof (rule ccontr)
  assume neq: "YearFromTime t \<noteq> y"
  note s = YearFromTime_spec [of t]
  show False
  proof (cases "YearFromTime t < y")
    case True
    then have "DayFromYear (YearFromTime t + 1) \<le> DayFromYear y"
      using DayFromYear_less [of "YearFromTime t + 1" y] by (cases "YearFromTime t + 1 = y") auto
    with s assms show False by simp
  next
    case False
    with neq have "y + 1 \<le> YearFromTime t" by simp
    then have "DayFromYear (y + 1) \<le> DayFromYear (YearFromTime t)"
      using DayFromYear_less [of "y + 1" "YearFromTime t"] by (cases "y + 1 = YearFromTime t") auto
    with s assms show False by simp
  qed
qed

lemma Day_shift:
  assumes "0 \<le> r" and "r < msPerDay"
  shows "Day (d * msPerDay + r) = d"
  unfolding Day_def
  using assms int_div_pos_eq [of "d * msPerDay + r" msPerDay d r] by (simp add: mult.commute)

text \<open>
  A local midnight reads back on its day where the offset in force at the instant it
  denotes is the offset it was read with, or exceeds it by less than a day (a midnight
  in the gap of a clock change); so it does in every zone of fixed offset.
\<close>

lemma readsBack_offsets:
  assumes "localOffset tz (d * msPerDay) \<le> utcOffset tz (d * msPerDay - localOffset tz (d * msPerDay))"
    and "utcOffset tz (d * msPerDay - localOffset tz (d * msPerDay)) <
         localOffset tz (d * msPerDay) + msPerDay"
  shows "readsBackSameDay tz d"
proof -
  define r where
    "r = utcOffset tz (d * msPerDay - localOffset tz (d * msPerDay)) - localOffset tz (d * msPerDay)"
  have "LocalTime tz (UTC tz (d * msPerDay)) = d * msPerDay + r"
    by (simp add: LocalTime_def UTC_def r_def)
  moreover have "Day (d * msPerDay + r) = d"
    using assms by (intro Day_shift) (simp_all add: r_def)
  ultimately show ?thesis by (simp add: readsBackSameDay_def)
qed

lemma readsBack_fixedZone: "readsBackSameDay (fixedZone offset) d"
  by (rule readsBack_offsets) (simp_all add: fixedZone_def msPerDay_def)

lemma DaysInYear_leap: "DaysInYear y = (if isLeapYear y then 366 else 365)"
  by (auto simp: DaysInYear_def isLeapYear_def)

text \<open>The fields of a day \<open>k\<close> days into year \<open>y\<close>.\<close>

lemma fields_in_year:
  assumes "Day t = DayFromYear y + k" and "0 \<le> k" and "k < DaysInYear y"
  shows "YearFromTime t = y" and "DayWithinYear t = k"
    and "InLeapYear t = (if isLeapYear y then 1 else 0)"
proof -
  show y: "YearFromTime t = y"
    using assms by (intro YearFromTime_unique) (simp_all add: DayFromYear_step)
  show "DayWithinYear t = k" using y assms(1) by (simp add: DayWithinYear_def)
  show "InLeapYear t = (if isLeapYear y then 1 else 0)"
    using y by (simp add: InLeapYear_def DaysInYear_leap)
qed

lemma getDate_newDate_0:
  assumes m: "0 \<le> m" "m \<le> 11" and yr: "y < 0 \<or> 99 < y"
    and rb: "readsBackSameDay tz (MakeDay y m 0)"
  shows "getDate tz (newDate tz y m 0) = precedingMonthLength y m"
proof -
  define t where "t = LocalTime tz (newDate tz y m 0)"
  define leap :: int where "leap = (if isLeapYear y then 1 else 0)"
  have md: "m div 12 = 0" "m mod 12 = m" using m by simp_all
  have "newDate tz y m 0 = UTC tz (MakeDay y m 0 * msPerDay)"
    using yr by (auto simp: newDate_def)
  then have "Day t = MakeDay y m 0"
    using rb by (simp add: t_def readsBackSameDay_def)
  then have D: "Day t = DayFromYear y + monthStart leap m - 1"
    by (simp add: MakeDay_def Let_def md DaysInYear_leap leap_def)
  show ?thesis
  proof (cases "m = 0")
    case True
    define k :: int where "k = DaysInYear (y - 1) - 1"
    have "Day t = DayFromYear (y - 1) + k"
      using D True DayFromYear_step [of "y - 1"] by (simp add: monthStart_def k_def)
    moreover have "0 \<le> k" "k < DaysInYear (y - 1)" by (simp_all add: k_def DaysInYear_leap)
    ultimately have f: "DayWithinYear t = k" "InLeapYear t = (if isLeapYear (y - 1) then 1 else 0)"
      using fields_in_year [of t "y - 1" k] by simp_all
    have "DateFromTime t = 31"
      unfolding DateFromTime_def MonthFromTime_def f Let_def
      by (simp add: k_def DaysInYear_leap monthStart_def)
    then show ?thesis
      using True by (simp add: getDate_def t_def precedingMonthLength_def daysInMonth_def)
  next
    case False
    define k :: int where "k = monthStart leap m - 1"
    have mcases: "m = 1 \<or> m = 2 \<or> m = 3 \<or> m = 4 \<or> m = 5 \<or> m = 6 \<or> m = 7 \<or> m = 8 \<or> m = 9 \<or> m = 10 \<or> m = 11"
      using m False by presburger
    have "Day t = DayFromYear y + k" using D by (simp add: k_def)
    moreover have "0 \<le> k" "k < DaysInYear y"
      using mcases by (auto simp: k_def DaysInYear_leap monthStart_def leap_def)
    ultimately have f: "DayWithinYear t = k" "InLeapYear t = leap"
      using fields_in_year [of t y k] by (simp_all add: leap_def)
    have "DateFromTime t = precedingMonthLength y m"
      unfolding DateFromTime_def MonthFromTime_def f Let_def
      using mcases
      by (auto simp: k_def monthStart_def leap_def precedingMonthLength_def daysInMonth_def)
    then show ?thesis by (simp add: getDate_def t_def)
  qed
qed

lemma MonthFromTime_range: "0 \<le> MonthFromTime t \<and> MonthFromTime t \<le> 11"
  by (simp add: MonthFromTime_def Let_def)

lemma ageParts_calendar:
  assumes "getFullYear tz now < 0 \<or> 99 < getFullYear tz now"
    and "readsBackSameDay tz (MakeDay (getFullYear tz now) (getMonth tz now) 0)"
  shows "ageParts tz now created =
         calendarDifference (getFullYear tz now, getMonth tz now, getDate tz now)
           (getFullYear tz created, getMonth tz created, getDate tz created)"
proof -
  have "getDate tz (newDate tz (getFullYear tz now) (getMonth tz now) 0) =
        precedingMonthLength (getFullYear tz now) (getMonth tz now)"
    using MonthFromTime_range [of "LocalTime tz now"] assms
    by (intro getDate_newDate_0) (simp_all add: getMonth_def)
  then show ?thesis
    by (simp add: ageParts_def calendarDifference_def Let_def)
qed

text \<open>The calendar fields depend on the day only.\<close>

lemma fields_of_day:
  assumes "Day t = d"
  shows "YearFromTime t = YearFromTime (d * msPerDay)"
    and "MonthFromTime t = MonthFromTime (d * msPerDay)"
    and "DateFromTime t = DateFromTime (d * msPerDay)"
proof -
  have D: "Day (d * msPerDay) = Day t" using assms by (simp add: Day_def msPerDay_def)
  show y: "YearFromTime t = YearFromTime (d * msPerDay)"
    unfolding YearFromTime_def D ..
  have l: "InLeapYear t = InLeapYear (d * msPerDay)" by (simp add: InLeapYear_def y)
  have w: "DayWithinYear t = DayWithinYear (d * msPerDay)" by (simp add: DayWithinYear_def y D)
  show m: "MonthFromTime t = MonthFromTime (d * msPerDay)" by (simp add: MonthFromTime_def l w)
  show "DateFromTime t = DateFromTime (d * msPerDay)" by (simp add: DateFromTime_def l w m)
qed

lemmas calendar_eval = YearFromTime_def MonthFromTime_def DateFromTime_def DayWithinYear_def
  InLeapYear_def DaysInYear_def DayFromYear_def Day_def msPerDay_def monthStart_def Let_def

text \<open>
  The restriction on the year is needed: \<^verbatim>\<open>new Date(0, 2, 0)\<close> is the last day of
  February 1900, which has 28 days, while February of the leap year 0 has 29.
\<close>

lemma two_digit_year:
  "getDate (fixedZone 0) (newDate (fixedZone 0) 0 2 0) = 28" "precedingMonthLength 0 2 = 29"
  by (simp_all add: getDate_def newDate_def LocalTime_def UTC_def fixedZone_def MakeDay_def
      calendar_eval precedingMonthLength_def daysInMonth_def isLeapYear_def)

lemma fields_2024_03_10:
  "YearFromTime (19792 * msPerDay) = 2024" "MonthFromTime (19792 * msPerDay) = 2"
  "DateFromTime (19792 * msPerDay) = 10"
  by (simp_all add: calendar_eval)

lemma fields_2024_03_09:
  "YearFromTime (19791 * msPerDay) = 2024" "MonthFromTime (19791 * msPerDay) = 2"
  "DateFromTime (19791 * msPerDay) = 9"
  by (simp_all add: calendar_eval)

lemma fields_2020_03_15:
  "YearFromTime (18336 * msPerDay) = 2020" "MonthFromTime (18336 * msPerDay) = 2"
  "DateFromTime (18336 * msPerDay) = 15"
  by (simp_all add: calendar_eval)

lemma fields_2020_03_14:
  "YearFromTime (18335 * msPerDay) = 2020" "MonthFromTime (18335 * msPerDay) = 2"
  "DateFromTime (18335 * msPerDay) = 14"
  by (simp_all add: calendar_eval)

lemma showInt_small: "showInt 3 = js ''3''" "showInt 11 = js ''11''" "showInt 24 = js ''24''"
  by (simp_all add: showInt_def digits.simps js_def)

lemma Day_local:
  assumes "- msPerDay < utcOffset tz (d * msPerDay)" and "utcOffset tz (d * msPerDay) < msPerDay"
  shows "Day (LocalTime tz (d * msPerDay)) = (if utcOffset tz (d * msPerDay) < 0 then d - 1 else d)"
proof (cases "utcOffset tz (d * msPerDay) < 0")
  case True
  have "LocalTime tz (d * msPerDay) =
        (d - 1) * msPerDay + (utcOffset tz (d * msPerDay) + msPerDay)"
    by (simp add: LocalTime_def algebra_simps)
  moreover have "Day ((d - 1) * msPerDay + (utcOffset tz (d * msPerDay) + msPerDay)) = d - 1"
    using assms True by (intro Day_shift) simp_all
  ultimately show ?thesis using True by simp
next
  case False
  have "Day (d * msPerDay + utcOffset tz (d * msPerDay)) = d"
    using assms False by (intro Day_shift) simp_all
  then show ?thesis using False by (simp add: LocalTime_def)
qed

lemma scenario_instants:
  "Date_UTC 2024 2 10 = 19792 * msPerDay" "Date_UTC 2020 2 15 = 18336 * msPerDay"
  by (simp_all add: Date_UTC_def MakeDay_def DayFromYear_def DaysInYear_def monthStart_def)

text \<open>
  The local fields of the two instants of the scenario, in a zone whose offset at each
  of them is less than a day: the date is the UTC date, or the day before where the
  offset in force is negative.
\<close>

lemma scenario_fields_now:
  assumes "- msPerDay < utcOffset tz (Date_UTC 2024 2 10)"
    and "utcOffset tz (Date_UTC 2024 2 10) < msPerDay"
  shows "getFullYear tz (Date_UTC 2024 2 10) = 2024" "getMonth tz (Date_UTC 2024 2 10) = 2"
    "getDate tz (Date_UTC 2024 2 10) = (if utcOffset tz (Date_UTC 2024 2 10) < 0 then 9 else 10)"
proof -
  note n = fields_of_day [OF Day_local [OF assms [unfolded scenario_instants]]]
  show "getFullYear tz (Date_UTC 2024 2 10) = 2024"
    unfolding getFullYear_def scenario_instants n
    by (simp add: fields_2024_03_10 fields_2024_03_09)
  show "getMonth tz (Date_UTC 2024 2 10) = 2"
    unfolding getMonth_def scenario_instants n
    by (simp add: fields_2024_03_10 fields_2024_03_09)
  show "getDate tz (Date_UTC 2024 2 10) =
      (if utcOffset tz (Date_UTC 2024 2 10) < 0 then 9 else 10)"
    unfolding getDate_def scenario_instants n
    by (simp add: fields_2024_03_10 fields_2024_03_09)
qed

lemma scenario_fields_created:
  assumes "- msPerDay < utcOffset tz (Date_UTC 2020 2 15)"
    and "utcOffset tz (Date_UTC 2020 2 15) < msPerDay"
  shows "getFullYear tz (Date_UTC 2020 2 15) = 2020" "getMonth tz (Date_UTC 2020 2 15) = 2"
    "getDate tz (Date_UTC 2020 2 15) = (if utcOffset tz (Date_UTC 2020 2 15) < 0 then 14 else 15)"
proof -
  note c = fields_of_day [OF Day_local [OF assms [unfolded scenario_instants]]]
  show "getFullYear tz (Date_UTC 2020 2 15) = 2020"
    unfolding getFullYear_def scenario_instants c
    by (simp add: fields_2020_03_15 fields_2020_03_14)
  show "getMonth tz (Date_UTC 2020 2 15) = 2"
    unfolding getMonth_def scenario_instants c
    by (simp add: fields_2020_03_15 fields_2020_03_14)
  show "getDate tz (Date_UTC 2020 2 15) =
      (if utcOffset tz (Date_UTC 2020 2 15) < 0 then 14 else 15)"
    unfolding getDate_def scenario_instants c
    by (simp add: fields_2020_03_15 fields_2020_03_14)
qed

lemma scenario_elapsed: "(Date_UTC 2024 2 10 - Date_UTC 2020 2 15) div 86400000 = 1456"
  by (simp add: scenario_instants msPerDay_def)

lemma february_2024: "precedingMonthLength 2024 2 = 29"
  by (simp add: precedingMonthLength_def daysInMonth_def isLeapYear_def)

lemma scenario_age:
  assumes n: "- msPerDay < utcOffset tz (Date_UTC 2024 2 10)"
      "utcOffset tz (Date_UTC 2024 2 10) < msPerDay"
    and c: "- msPerDay < utcOffset tz (Date_UTC 2020 2 15)"
      "utcOffset tz (Date_UTC 2020 2 15) < msPerDay"
    and rb: "readsBackSameDay tz (MakeDay 2024 2 0)"
  shows "ageParts tz (Date_UTC 2024 2 10) (Date_UTC 2020 2 15) =
      (3, 11,
       (if utcOffset tz (Date_UTC 2024 2 10) < 0 then 9 else 10) -
       (if utcOffset tz (Date_UTC 2020 2 15) < 0 then 14 else 15) + 29)"
    and "getDate tz (newDate tz (getFullYear tz (Date_UTC 2024 2 10))
                    (getMonth tz (Date_UTC 2024 2 10)) 0) = 29"
    and "(utcOffset tz (Date_UTC 2024 2 10) < 0 \<longleftrightarrow> utcOffset tz (Date_UTC 2020 2 15) < 0) \<Longrightarrow>
      calculateChannelAge tz (Date_UTC 2024 2 10) (Some (Date_UTC 2020 2 15)) =
        (js ''3 years, 11 months, 24 days'', Some 1456)"
proof -
  note f = scenario_fields_now [OF n] scenario_fields_created [OF c]
  have y: "getFullYear tz (Date_UTC 2024 2 10) < 0 \<or> 99 < getFullYear tz (Date_UTC 2024 2 10)"
    by (simp add: f)
  have rb': "readsBackSameDay tz
      (MakeDay (getFullYear tz (Date_UTC 2024 2 10)) (getMonth tz (Date_UTC 2024 2 10)) 0)"
    using rb by (simp add: f)
  show parts: "ageParts tz (Date_UTC 2024 2 10) (Date_UTC 2020 2 15) =
      (3, 11,
       (if utcOffset tz (Date_UTC 2024 2 10) < 0 then 9 else 10) -
       (if utcOffset tz (Date_UTC 2020 2 15) < 0 then 14 else 15) + 29)"
    unfolding ageParts_calendar [OF y rb'] f
    by (simp add: calendarDifference_def february_2024)
  show "getDate tz (newDate tz (getFullYear tz (Date_UTC 2024 2 10))
                    (getMonth tz (Date_UTC 2024 2 10)) 0) = 29"
    unfolding f using getDate_newDate_0 [of 2 2024 tz] rb by (simp add: february_2024)
  assume "utcOffset tz (Date_UTC 2024 2 10) < 0 \<longleftrightarrow> utcOffset tz (Date_UTC 2020 2 15) < 0"
  then have "ageParts tz (Date_UTC 2024 2 10) (Date_UTC 2020 2 15) = (3, 11, 24)"
    unfolding parts by auto
  then show "calculateChannelAge tz (Date_UTC 2024 2 10) (Some (Date_UTC 2020 2 15)) =
        (js ''3 years, 11 months, 24 days'', Some 1456)"
    by (simp add: calculateChannelAge_def scenario_elapsed showInt_small) (simp add: js_def)
qed

text \<open>
  A host with daylight saving time. The scenario's now is read in standard time and its
  creation instant in daylight time; 04:30 UTC on 17 January 2024 is 16 January in standard
  time, and 04:30 UTC on 4 July 2020 is 4 July in daylight time, which no single offset
  gives.
\<close>

lemmas makeDay_eval = MakeDay_def DayFromYear_def DaysInYear_def monthStart_def

lemma newYork_changes:
  "dstStartDay 2020 = MakeDay 2020 2 8" "dstEndDay 2020 = MakeDay 2020 10 1"
  "dstStartDay 2024 = MakeDay 2024 2 10" "dstEndDay 2024 = MakeDay 2024 10 3"
  by (simp_all add: dstStartDay_def dstEndDay_def sundayOnOrAfter_def makeDay_eval)

lemma example_instants:
  "Date_UTC 2024 2 10 = 1710028800000" "Date_UTC 2020 2 15 = 1584230400000"
  "Date_UTC 2024 0 17 + 4 * msPerHour + 1800000 = 1705465800000"
  "Date_UTC 2020 6 4 + 4 * msPerHour + 1800000 = 1593837000000"
  "MakeDay 2024 2 0 * msPerDay = 1709164800000" "MakeDay 2024 0 0 * msPerDay = 1703980800000"
  by (simp_all add: Date_UTC_def makeDay_eval msPerDay_def msPerHour_def)

lemma example_years:
  "YearFromTime 1710028800000 = 2024" "YearFromTime 1584230400000 = 2020"
  "YearFromTime 1705465800000 = 2024" "YearFromTime 1593837000000 = 2020"
  "YearFromTime 1709164800000 = 2024" "YearFromTime 1703980800000 = 2023"
  "YearFromTime 1709182800000 = 2024" "YearFromTime 1703998800000 = 2023"
  by (simp_all add: calendar_eval)

lemma dst_2023: "dstStartDay 2023 = MakeDay 2023 2 12" "dstEndDay 2023 = MakeDay 2023 10 5"
  by (simp_all add: dstStartDay_def dstEndDay_def sundayOnOrAfter_def makeDay_eval)

lemma newYork_utcOffset:
  "utcOffset newYorkZone 1710028800000 = - 18000000"
  "utcOffset newYorkZone 1584230400000 = - 14400000"
  "utcOffset newYorkZone 1705465800000 = - 18000000"
  "utcOffset newYorkZone 1593837000000 = - 14400000"
  "utcOffset newYorkZone 1709182800000 = - 18000000"
  "utcOffset newYorkZone 1703998800000 = - 18000000"
  "localOffset newYorkZone 1709164800000 = - 18000000"
  "localOffset newYorkZone 1703980800000 = - 18000000"
  by (simp_all add: newYorkZone_def Let_def example_years newYork_changes dst_2023)
    (simp_all add: makeDay_eval msPerDay_def msPerHour_def)


lemma newYork_fields:
  "getFullYear newYorkZone 1705465800000 = 2024"
  "getMonth newYorkZone 1705465800000 = 0"
  "getDate newYorkZone 1705465800000 = 16"
  "getFullYear newYorkZone 1593837000000 = 2020"
  "getMonth newYorkZone 1593837000000 = 6"
  "getDate newYorkZone 1593837000000 = 4"
  by (simp_all add: getFullYear_def getMonth_def getDate_def LocalTime_def newYork_utcOffset)
    (simp_all add: calendar_eval)

lemma fixed_offset_dates:
  "getDate (fixedZone (- 5 * msPerHour)) 1593837000000 = 3"
  "getDate (fixedZone (- 4 * msPerHour)) 1705465800000 = 17"
  by (simp_all add: getDate_def LocalTime_def fixedZone_def msPerHour_def calendar_eval)

lemma newYork_readsBack:
  "readsBackSameDay newYorkZone (MakeDay 2024 2 0)"
  "readsBackSameDay newYorkZone (MakeDay 2024 0 0)"
  by (rule readsBack_offsets; simp add: example_instants newYork_utcOffset;
      simp add: msPerDay_def)+

lemma showInt_more: "showInt 6 = js ''6''" "showInt 12 = js ''12''"
  by (simp_all add: showInt_def digits.simps js_def)

text \<open>
  Claim C4. In any time zone, with the offset that is in force at each instant, and where
  the clock's local year is not one of 0 to 99 (which \<^verbatim>\<open>new Date(year, month, 0)\<close> reads
  as 1900 to 1999) and the local midnight before the month of now reads back on its day,
  the age is the calendar difference of the local calendar fields of now and of the
  creation instant: a negative day component borrows the length of the calendar month
  before the month of now and takes one from the months, and negative months then borrow
  12 from the years. For a creation at 2020-03-15T00:00:00Z and now 2024-03-10T00:00:00Z,
  with an offset of less than a day at each, the age is 3 years and 11 months with the 29
  days of February 2024 borrowed; the days are 24, and the whole days 1456, where the two
  offsets are on the same side of UTC.
\<close>

theorem calendar_aware_age:
  "((getFullYear tz now < 0 \<or> 99 < getFullYear tz now) \<and>
    readsBackSameDay tz (MakeDay (getFullYear tz now) (getMonth tz now) 0) \<longrightarrow>
      ageParts tz now created =
        calendarDifference (getFullYear tz now, getMonth tz now, getDate tz now)
          (getFullYear tz created, getMonth tz created, getDate tz created) \<and>
      fst (calculateChannelAge tz now (Some created)) =
        (case ageParts tz now created of
           (years, months, days) \<Rightarrow>
             showInt years @ js '' years, '' @ showInt months @ js '' months, '' @
             showInt days @ js '' days'')) \<and>
   (- msPerDay < utcOffset z (Date_UTC 2024 2 10) \<and> utcOffset z (Date_UTC 2024 2 10) < msPerDay \<and>
    - msPerDay < utcOffset z (Date_UTC 2020 2 15) \<and> utcOffset z (Date_UTC 2020 2 15) < msPerDay \<and>
    readsBackSameDay z (MakeDay 2024 2 0) \<longrightarrow>
      ageParts z (Date_UTC 2024 2 10) (Date_UTC 2020 2 15) =
        (3, 11,
         (if utcOffset z (Date_UTC 2024 2 10) < 0 then 9 else 10) -
         (if utcOffset z (Date_UTC 2020 2 15) < 0 then 14 else 15) + 29) \<and>
      getDate z (newDate z (getFullYear z (Date_UTC 2024 2 10))
                   (getMonth z (Date_UTC 2024 2 10)) 0) = 29 \<and>
      precedingMonthLength 2024 2 = 29 \<and>
      ((utcOffset z (Date_UTC 2024 2 10) < 0 \<longleftrightarrow> utcOffset z (Date_UTC 2020 2 15) < 0) \<longrightarrow>
         ageParts z (Date_UTC 2024 2 10) (Date_UTC 2020 2 15) = (3, 11, 24) \<and>
         calculateChannelAge z (Date_UTC 2024 2 10) (Some (Date_UTC 2020 2 15)) =
           (js ''3 years, 11 months, 24 days'', Some 1456)))"
proof (intro conjI impI)
  assume "(getFullYear tz now < 0 \<or> 99 < getFullYear tz now) \<and>
    readsBackSameDay tz (MakeDay (getFullYear tz now) (getMonth tz now) 0)"
  then show "ageParts tz now created =
        calendarDifference (getFullYear tz now, getMonth tz now, getDate tz now)
          (getFullYear tz created, getMonth tz created, getDate tz created)"
    using ageParts_calendar by blast
  show "fst (calculateChannelAge tz now (Some created)) =
        (case ageParts tz now created of
           (years, months, days) \<Rightarrow>
             showInt years @ js '' years, '' @ showInt months @ js '' months, '' @
             showInt days @ js '' days'')"
    by (simp add: calculateChannelAge_def Let_def split: prod.splits)
next
  assume a: "- msPerDay < utcOffset z (Date_UTC 2024 2 10) \<and>
    utcOffset z (Date_UTC 2024 2 10) < msPerDay \<and>
    - msPerDay < utcOffset z (Date_UTC 2020 2 15) \<and> utcOffset z (Date_UTC 2020 2 15) < msPerDay \<and>
    readsBackSameDay z (MakeDay 2024 2 0)"
  then have n: "- msPerDay < utcOffset z (Date_UTC 2024 2 10)"
      "utcOffset z (Date_UTC 2024 2 10) < msPerDay"
    and c: "- msPerDay < utcOffset z (Date_UTC 2020 2 15)"
      "utcOffset z (Date_UTC 2020 2 15) < msPerDay"
    and rb: "readsBackSameDay z (MakeDay 2024 2 0)" by simp_all
  note s = scenario_age [OF n c rb]
  show parts: "ageParts z (Date_UTC 2024 2 10) (Date_UTC 2020 2 15) =
        (3, 11,
         (if utcOffset z (Date_UTC 2024 2 10) < 0 then 9 else 10) -
         (if utcOffset z (Date_UTC 2020 2 15) < 0 then 14 else 15) + 29)"
    by (rule s(1))
  show "getDate z (newDate z (getFullYear z (Date_UTC 2024 2 10))
                   (getMonth z (Date_UTC 2024 2 10)) 0) = 29"
    by (rule s(2))
  show "precedingMonthLength 2024 2 = 29" by (rule february_2024)
  assume same: "utcOffset z (Date_UTC 2024 2 10) < 0 \<longleftrightarrow> utcOffset z (Date_UTC 2020 2 15) < 0"
  then show "ageParts z (Date_UTC 2024 2 10) (Date_UTC 2020 2 15) = (3, 11, 24)"
    unfolding parts by auto
  show "calculateChannelAge z (Date_UTC 2024 2 10) (Some (Date_UTC 2020 2 15)) =
           (js ''3 years, 11 months, 24 days'', Some 1456)"
    using same by (rule s(3))
qed

theorem calendar_aware_age_witness:
  "ageParts newYorkZone (Date_UTC 2024 0 17 + 4 * msPerHour + 1800000)
     (Date_UTC 2020 6 4 + 4 * msPerHour + 1800000) = (3, 6, 12) \<and>
   fst (calculateChannelAge newYorkZone (Date_UTC 2024 0 17 + 4 * msPerHour + 1800000)
     (Some (Date_UTC 2020 6 4 + 4 * msPerHour + 1800000))) = js ''3 years, 6 months, 12 days'' \<and>
   ageParts newYorkZone (Date_UTC 2024 2 10) (Date_UTC 2020 2 15) = (3, 11, 24) \<and>
   getDate newYorkZone (newDate newYorkZone (getFullYear newYorkZone (Date_UTC 2024 2 10))
     (getMonth newYorkZone (Date_UTC 2024 2 10)) 0) = 29 \<and>
   calculateChannelAge newYorkZone (Date_UTC 2024 2 10) (Some (Date_UTC 2020 2 15)) =
     (js ''3 years, 11 months, 24 days'', Some 1456)"
proof -
  have c: "calendarDifference (2024, 0, 16) (2020, 6, 4) = (3, 6, 12)"
    by (simp add: calendarDifference_def)
  have m: "- msPerDay < (- 18000000 :: int)" "(- 18000000 :: int) < msPerDay"
    "- msPerDay < (- 14400000 :: int)" "(- 14400000 :: int) < msPerDay"
    by (simp_all add: msPerDay_def)
  have o: "utcOffset newYorkZone (Date_UTC 2024 2 10) = - 18000000"
    "utcOffset newYorkZone (Date_UTC 2020 2 15) = - 14400000"
    by (simp_all add: example_instants newYork_utcOffset)
  note w = calendar_aware_age [where tz = newYorkZone and z = newYorkZone
      and now = "Date_UTC 2024 0 17 + 4 * msPerHour + 1800000"
      and created = "Date_UTC 2020 6 4 + 4 * msPerHour + 1800000"]
  show ?thesis
    using w c m
    by (simp add: example_instants(3,4) newYork_fields newYork_readsBack o showInt_small
        showInt_more)
      (simp add: js_def)
qed

section \<open>The day count\<close>

lemma age_days_value:
  "snd (calculateChannelAge tz now (Some created)) = Some ((now - created) div 86400000)"
  by (simp add: calculateChannelAge_def Let_def split: prod.splits)

text \<open>
  Claim C5, as the program has it. \<open>age_days\<close> is the elapsed milliseconds divided by
  86,400,000 and rounded down (\<open>Math.floor\<close>), not truncated toward zero: it is the
  integer \<open>d\<close> with \<open>86400000 * d \<le> now - created < 86400000 * (d + 1)\<close>. For a creation
  instant that is not in the future this is the truncated quotient; for one in the
  future it is negative, with no clamping.
\<close>

theorem age_days_is_floor:
  "(\<exists>d. snd (calculateChannelAge tz now (Some created)) = Some d \<and>
        86400000 * d \<le> now - created \<and> now - created < 86400000 * d + 86400000) \<and>
   (created \<le> now \<longrightarrow>
      snd (calculateChannelAge tz now (Some created)) =
        Some (truncQuotient (now - created) 86400000)) \<and>
   (now < created \<longrightarrow>
      (\<exists>d. snd (calculateChannelAge tz now (Some created)) = Some d \<and> d < 0))"
proof (intro conjI impI)
  show "\<exists>d. snd (calculateChannelAge tz now (Some created)) = Some d \<and>
        86400000 * d \<le> now - created \<and> now - created < 86400000 * d + 86400000"
    using div_bounds [of 86400000 "now - created"] by (simp add: age_days_value)
next
  assume "created \<le> now"
  then show "snd (calculateChannelAge tz now (Some created)) =
        Some (truncQuotient (now - created) 86400000)"
    by (cases "now = created") (simp_all add: age_days_value truncQuotient_def)
next
  assume "now < created"
  then have "(now - created) div 86400000 < 0"
    by (simp add: neg_imp_zdiv_neg_iff)
  then show "\<exists>d. snd (calculateChannelAge tz now (Some created)) = Some d \<and> d < 0"
    by (simp add: age_days_value)
qed

theorem age_days_is_floor_witness:
  "snd (calculateChannelAge (fixedZone 0) 0 (Some 1)) = Some (- 1) \<and>
   snd (calculateChannelAge (fixedZone 0) 86400001 (Some 0)) =
     Some (truncQuotient 86400001 86400000) \<and>
   truncQuotient 86400001 86400000 = 1"
  using age_days_is_floor [of "fixedZone 0" 0 1] age_days_is_floor [of "fixedZone 0" 86400001 0]
  by (auto simp: truncQuotient_def)

theorem age_days_truncation_counterexample:
  "snd (calculateChannelAge (fixedZone 0) 0 (Some 1)) = Some (- 1) \<and>
   truncQuotient (0 - 1) 86400000 = 0"
  by (simp add: age_days_value truncQuotient_def)

section \<open>Evaluating the example requests\<close>

lemma example_lookup:
  "lookupHandle exampleEnv (js ''MrBeast'') = Responded 200 (Fulfilled (JsonValue (Some [Some exampleId])))"
  "lookupHandle exampleEnv (js ''nobody'') = Responded 200 (Fulfilled (JsonValue (Some [])))"
  by (simp_all add: exampleEnv_def js_def)

lemmas match_eval = js_def handleMatch_def handleMatchAt_def atTokenGroup_def tokenGroup_def
  tokenChar_def isWhiteSpace_def matchLiteral_ci_def canonicalize_def channelMatch_def
  channelMatchAt_def isChannelId_def idChar_def stripAt_def trim_js_def customMatch_def
  customUrlMatchAt_def bareHandleMatch_def Let_def

lemma resolve_MrBeast:
  "trim_js (js ''@MrBeast'') = js ''@MrBeast''" "\<not> isChannelId (js ''@MrBeast'')"
  "channelMatch (js ''@MrBeast'') = None" "handleMatch (js ''@MrBeast'') = Some (js ''MrBeast'')"
  "stripAt (js ''MrBeast'') = js ''MrBeast''"
  "encodeURIComponent (js ''MrBeast'') = Inr (js ''MrBeast'')"
  "customMatch (js ''@MrBeast'') = Some (js ''MrBeast'')"
  "decodeURIComponent (js ''@MrBeast'') = Inr (js ''@MrBeast'')"
  by (simp_all add: match_eval uriUnreserved_def)

lemma resolve_nobody:
  "trim_js (js ''@nobody'') = js ''@nobody''" "\<not> isChannelId (js ''@nobody'')"
  "channelMatch (js ''@nobody'') = None" "handleMatch (js ''@nobody'') = Some (js ''nobody'')"
  "stripAt (js ''nobody'') = js ''nobody''"
  "encodeURIComponent (js ''nobody'') = Inr (js ''nobody'')"
  by (simp_all add: match_eval uriUnreserved_def)

lemma example_nonempty: "exampleId \<noteq> []" "js ''@MrBeast'' \<noteq> []" "js ''@nobody'' \<noteq> []"
  by (simp_all add: exampleId_def js_def)

lemma example_resolve:
  "extractChannelId (lookupHandle exampleEnv) (js ''@MrBeast'') = (Inr (Some exampleId), [js ''MrBeast''])"
  by (simp add: extractChannelId_def example_nonempty resolve_MrBeast example_lookup firstItemId_def)

lemma example_resolve_nobody:
  "extractChannelId (lookupHandle exampleEnv) (js ''@nobody'') = (Inr None, [js ''nobody''])"
  by (simp add: extractChannelId_def example_nonempty resolve_nobody example_lookup firstItemId_def)

lemma example_resolve_p0:
  "extractChannelId_p0 (lookupHandle exampleEnv) (js ''@MrBeast'') = (Inr (Some exampleId), [js ''MrBeast''])"
  by (simp add: extractChannelId_p0_def resolve_MrBeast example_lookup firstItemId_def)

lemma CACHE_TTL_value: "CACHE_TTL = 86400000"
  by (simp add: CACHE_TTL_def)

lemma cacheHit_Some:
  "cache k = Some en \<Longrightarrow> now - timestamp en < CACHE_TTL \<Longrightarrow> cacheHit cache k now = Some en"
  by (simp add: cacheHit_def)

lemma cacheHit_expired:
  "cache k = Some en \<Longrightarrow> CACHE_TTL \<le> now - timestamp en \<Longrightarrow> cacheHit cache k now = None"
  by (simp add: cacheHit_def)

lemma cacheHit_empty: "cacheHit Map.empty k now = None"
  by (simp add: cacheHit_def)

lemma example_response: "responseData exampleEnv False exampleChannel = Inr exampleSnapshot"
proof -
  have age: "calculateChannelAge (fixedZone 0) (Date_UTC 2024 2 10) (Some (Date_UTC 2020 2 15)) =
        (js ''3 years, 11 months, 24 days'', Some 1456)"
    by (rule scenario_age)
      (simp_all add: readsBack_fixedZone, simp_all add: fixedZone_def msPerDay_def)
  have p: "parseInt (js ''100000'') = Some 100000" by (simp add: parseInt_eval)
  have o: "orDefault (Some (js ''100000'')) (js ''0'') = js ''100000''"
    by (simp add: orDefault_def js_def)
  show ?thesis
    by (simp add: responseData_def exampleEnv_def exampleChannel_def exampleSnapshot_def age p o)
      (simp add: orDefault_def js_def)
qed

lemma example_upstream:
  "fetchChannel exampleEnv exampleId = Responded 200 (Fulfilled (JsonValue (Some [exampleChannel])))"
  "clock_check exampleEnv = Date_UTC 2024 2 10" "clock_store exampleEnv = Date_UTC 2024 2 10"
  by (simp_all add: exampleEnv_def)

lemma example_fetch: "fetchSnapshot exampleEnv False exampleId = Inr (Fetched exampleSnapshot)"
  by (simp add: fetchSnapshot_def example_upstream example_response)

lemma example_post:
  "postYoutubeAge exampleEnv Map.empty (Some (js ''@MrBeast'')) =
     (Inr (Json exampleSnapshot (Some False)),
      [exampleId \<mapsto> \<lparr>data = exampleSnapshot, timestamp = Date_UTC 2024 2 10\<rparr>],
      [HandleLookup (js ''MrBeast''), ChannelFetch exampleId])"
  by (simp add: postYoutubeAge_def example_resolve example_nonempty cacheHit_empty example_fetch
      example_upstream)

lemma handleChannelRequest_miss:
  assumes "cacheHit cache k (clock_check e) = None"
  shows "fst (handleChannelRequest e cache k) = fst (handleChannelRequest e Map.empty k)"
proof -
  obtain r qs where x: "extractChannelId_p0 (lookupHandle e) k = (r, qs)"
    by (cases "extractChannelId_p0 (lookupHandle e) k")
  show ?thesis
  proof (cases r)
    case (Inl a)
    then show ?thesis using assms x by (simp add: handleChannelRequest_def cacheHit_empty)
  next
    case (Inr b)
    show ?thesis
    proof (cases b)
      case None
      then show ?thesis using assms x Inr by (simp add: handleChannelRequest_def cacheHit_empty)
    next
      case (Some cid)
      show ?thesis
      proof (cases "fetchSnapshot e True cid")
        case (Inl a)
        then show ?thesis
          using assms x Inr Some by (simp add: handleChannelRequest_def cacheHit_empty)
      next
        case o: (Inr out)
        then show ?thesis
          using assms x Inr Some
          by (cases out) (simp_all add: handleChannelRequest_def cacheHit_empty)
      qed
    qed
  qed
qed

lemma postYoutubeAge_miss:
  assumes "extractChannelId (lookupHandle e) inp = (Inr (Some k), qs)"
    and "cacheHit cache k (clock_check e) = None"
  shows "fst (postYoutubeAge e cache (Some inp)) = fst (postYoutubeAge e Map.empty (Some inp))"
proof (cases "fetchSnapshot e False k")
  case (Inl a)
  then show ?thesis using assms by (simp add: postYoutubeAge_def cacheHit_empty)
next
  case (Inr out)
  then show ?thesis
    using assms by (cases out) (simp_all add: postYoutubeAge_def cacheHit_empty)
qed

lemma postYoutubeAge_hit:
  assumes "extractChannelId (lookupHandle e) inp = (Inr (Some k), qs)" and "k \<noteq> []"
    and "cacheHit cache k (clock_check e) = Some en"
  shows "postYoutubeAge e cache (Some inp) = (Inr (Json (data en) (Some True)), cache, map HandleLookup qs)"
proof -
  have "inp \<noteq> []" using assms(1) by (auto simp: extractChannelId_def)
  then show ?thesis using assms by (simp add: postYoutubeAge_def)
qed

lemma handleChannelRequest_hit:
  assumes "cacheHit cache k (clock_check e) = Some en"
  shows "handleChannelRequest e cache k = (Inr (Json (data en) None), cache, [])"
  using assms by (simp add: handleChannelRequest_def)

section \<open>Cache freshness and round trip\<close>

text \<open>
  Claim C6. For a key with a stored entry, the lookup gives the entry exactly when
  \<open>now - storedAt\<close> is less than 24 hours: one millisecond before \<open>storedAt + TTL\<close> is
  a hit, \<open>storedAt + TTL\<close> and any later time is a miss. On a hit both handlers answer
  with the stored data and fetch nothing; on a miss they answer as with no entry at all.
\<close>

theorem cache_freshness:
  assumes "cache k = Some en"
  shows
    "(cacheHit cache k now = Some en \<longleftrightarrow> now - timestamp en < 24 * 60 * 60 * 1000) \<and>
     (cacheHit cache k now = None \<longleftrightarrow> 24 * 60 * 60 * 1000 \<le> now - timestamp en) \<and>
     cacheHit cache k (timestamp en + 24 * 60 * 60 * 1000 - 1) = Some en \<and>
     (timestamp en + 24 * 60 * 60 * 1000 \<le> now \<longrightarrow> cacheHit cache k now = None) \<and>
     (clock_check e - timestamp en < 24 * 60 * 60 * 1000 \<longrightarrow>
        handleChannelRequest e cache k = (Inr (Json (data en) None), cache, [])) \<and>
     (24 * 60 * 60 * 1000 \<le> clock_check e - timestamp en \<longrightarrow>
        fst (handleChannelRequest e cache k) = fst (handleChannelRequest e Map.empty k)) \<and>
     (extractChannelId (lookupHandle e) inp = (Inr (Some k), qs) \<and> k \<noteq> [] \<longrightarrow>
        (clock_check e - timestamp en < 24 * 60 * 60 * 1000 \<longrightarrow>
           postYoutubeAge e cache (Some inp) =
             (Inr (Json (data en) (Some True)), cache, map HandleLookup qs)) \<and>
        (24 * 60 * 60 * 1000 \<le> clock_check e - timestamp en \<longrightarrow>
           fst (postYoutubeAge e cache (Some inp)) = fst (postYoutubeAge e Map.empty (Some inp))))"
proof -
  have 1: "cacheHit cache k now = Some en \<longleftrightarrow> now - timestamp en < 24 * 60 * 60 * 1000"
    using assms by (simp add: cacheHit_def CACHE_TTL_def)
  have 2: "cacheHit cache k now = None \<longleftrightarrow> 24 * 60 * 60 * 1000 \<le> now - timestamp en"
    using assms by (simp add: cacheHit_def CACHE_TTL_def)
  have 3: "cacheHit cache k (timestamp en + 24 * 60 * 60 * 1000 - 1) = Some en"
    using assms by (simp add: cacheHit_def CACHE_TTL_def)
  have 4: "timestamp en + 24 * 60 * 60 * 1000 \<le> now \<longrightarrow> cacheHit cache k now = None"
    using assms by (simp add: cacheHit_def CACHE_TTL_def)
  have 5: "clock_check e - timestamp en < 24 * 60 * 60 * 1000 \<longrightarrow>
        handleChannelRequest e cache k = (Inr (Json (data en) None), cache, [])"
    using assms handleChannelRequest_hit [of cache k e en] cacheHit_Some [of cache k en "clock_check e"]
    by (simp add: CACHE_TTL_def)
  have 6: "24 * 60 * 60 * 1000 \<le> clock_check e - timestamp en \<longrightarrow>
        fst (handleChannelRequest e cache k) = fst (handleChannelRequest e Map.empty k)"
    using assms handleChannelRequest_miss [of cache k e]
      cacheHit_expired [of cache k en "clock_check e"]
    by (simp add: CACHE_TTL_def)
  have 7: "extractChannelId (lookupHandle e) inp = (Inr (Some k), qs) \<and> k \<noteq> [] \<longrightarrow>
        (clock_check e - timestamp en < 24 * 60 * 60 * 1000 \<longrightarrow>
           postYoutubeAge e cache (Some inp) =
             (Inr (Json (data en) (Some True)), cache, map HandleLookup qs))"
    using assms postYoutubeAge_hit [of e inp k qs cache en]
      cacheHit_Some [of cache k en "clock_check e"]
    by (simp add: CACHE_TTL_def)
  have 8: "extractChannelId (lookupHandle e) inp = (Inr (Some k), qs) \<and> k \<noteq> [] \<longrightarrow>
        (24 * 60 * 60 * 1000 \<le> clock_check e - timestamp en \<longrightarrow>
           fst (postYoutubeAge e cache (Some inp)) = fst (postYoutubeAge e Map.empty (Some inp)))"
    using assms postYoutubeAge_miss [of e inp k qs cache]
      cacheHit_expired [of cache k en "clock_check e"]
    by (simp add: CACHE_TTL_def)
  from 1 2 3 4 5 6 7 8 show ?thesis by blast
qed


theorem cache_freshness_witness:
  "cacheHit [exampleId \<mapsto> \<lparr>data = exampleSnapshot, timestamp = 1000\<rparr>] exampleId
     (1000 + 24 * 60 * 60 * 1000 - 1) = Some \<lparr>data = exampleSnapshot, timestamp = 1000\<rparr> \<and>
   cacheHit [exampleId \<mapsto> \<lparr>data = exampleSnapshot, timestamp = 1000\<rparr>] exampleId
     (1000 + 24 * 60 * 60 * 1000) = None \<and>
   postYoutubeAge (exampleEnv\<lparr>clock_check := 2000\<rparr>)
     [exampleId \<mapsto> \<lparr>data = exampleSnapshot, timestamp = 1000\<rparr>] (Some (js ''@MrBeast'')) =
     (Inr (Json exampleSnapshot (Some True)),
      [exampleId \<mapsto> \<lparr>data = exampleSnapshot, timestamp = 1000\<rparr>],
      [HandleLookup (js ''MrBeast'')])"
proof -
  let ?en = "\<lparr>data = exampleSnapshot, timestamp = 1000\<rparr>"
  let ?c = "[exampleId \<mapsto> ?en]"
  let ?e = "exampleEnv\<lparr>clock_check := 2000\<rparr>"
  have c: "?c exampleId = Some ?en" by simp
  have x: "extractChannelId (lookupHandle ?e) (js ''@MrBeast'') = (Inr (Some exampleId), [js ''MrBeast''])"
    using example_resolve by simp
  note w = cache_freshness [where cache = ?c and k = exampleId and en = ?en
        and now = "1000 + 24 * 60 * 60 * 1000" and e = ?e and inp = "js ''@MrBeast''"
        and qs = "[js ''MrBeast'']"]
  show ?thesis using w c x example_nonempty(1) by simp
qed

lemma postYoutubeAge_cases:
  assumes "postYoutubeAge e c i = (r, c', calls)"
  shows "(c' = c \<and> (\<forall>rd. r \<noteq> Inr (Json rd (Some False)))) \<or>
    (\<exists>inp k qs rd. i = Some inp \<and>
       extractChannelId (lookupHandle e) inp = (Inr (Some k), qs) \<and> k \<noteq> [] \<and>
       cacheHit c k (clock_check e) = None \<and> fetchSnapshot e False k = Inr (Fetched rd) \<and>
       r = Inr (Json rd (Some False)) \<and>
       c' = c(k \<mapsto> \<lparr>data = rd, timestamp = clock_store e\<rparr>))"
  using assms
  by (auto simp: postYoutubeAge_def Let_def
      split: option.splits if_splits prod.splits sum.splits fetch_outcome.splits)

lemma handleChannelRequest_cases:
  assumes "handleChannelRequest e c inp = (r, c', calls)"
  shows "(c' = c \<and>
      ((\<exists>x. r = Inl x) \<or> (\<exists>n msg. r = Inr (ErrorJson n msg)) \<or>
       (\<exists>en. cacheHit c inp (clock_check e) = Some en \<and> r = Inr (Json (data en) None)))) \<or>
    (\<exists>k qs rd. cacheHit c inp (clock_check e) = None \<and>
       extractChannelId_p0 (lookupHandle e) inp = (Inr (Some k), qs) \<and> k \<noteq> [] \<and>
       fetchSnapshot e True k = Inr (Fetched rd) \<and> r = Inr (Json rd None) \<and>
       c' = c(inp \<mapsto> \<lparr>data = rd, timestamp = clock_store e\<rparr>))"
  using assms
  by (auto simp: handleChannelRequest_def Let_def
      split: option.splits if_splits prod.splits sum.splits fetch_outcome.splits)


lemma routeYoutubeAge_p0_cases:
  assumes "routeYoutubeAge_p0 e c i = (r, c', calls)"
  shows "(c' = c \<and>
      ((\<exists>x. r = Inl x) \<or> (\<exists>n msg. r = Inr (ErrorJson n msg)) \<or>
       (\<exists>inp en. i = Some inp \<and> cacheHit c inp (clock_check e) = Some en \<and>
          r = Inr (Json (data en) None)))) \<or>
    (\<exists>inp k qs rd. i = Some inp \<and> cacheHit c inp (clock_check e) = None \<and>
       extractChannelId_p0 (lookupHandle e) inp = (Inr (Some k), qs) \<and> k \<noteq> [] \<and>
       fetchSnapshot e True k = Inr (Fetched rd) \<and> r = Inr (Json rd None) \<and>
       c' = c(inp \<mapsto> \<lparr>data = rd, timestamp = clock_store e\<rparr>))"
proof (cases i)
  case None
  then show ?thesis using assms by (auto simp: routeYoutubeAge_p0_def)
next
  case (Some inp)
  show ?thesis
  proof (cases "inp = []")
    case True
    then show ?thesis using assms Some by (auto simp: routeYoutubeAge_p0_def)
  next
    case False
    then have "handleChannelRequest e c inp = (r, c', calls)"
      using assms Some by (simp add: routeYoutubeAge_p0_def)
    from handleChannelRequest_cases [OF this] show ?thesis using Some by blast
  qed
qed

lemma example_response_p0:
  "responseData exampleEnv True exampleChannel =
     Inr (exampleSnapshot\<lparr>description := Some (js ''N/A'')\<rparr>)"
proof -
  have age: "calculateChannelAge (fixedZone 0) (Date_UTC 2024 2 10) (Some (Date_UTC 2020 2 15)) =
        (js ''3 years, 11 months, 24 days'', Some 1456)"
    by (rule scenario_age)
      (simp_all add: readsBack_fixedZone, simp_all add: fixedZone_def msPerDay_def)
  have p: "parseInt (js ''100000'') = Some 100000" by (simp add: parseInt_eval)
  have o: "orDefault (Some (js ''100000'')) (js ''0'') = js ''100000''"
    by (simp add: orDefault_def js_def)
  show ?thesis
    by (simp add: responseData_def exampleEnv_def exampleChannel_def exampleSnapshot_def age p o)
      (simp add: orDefault_def js_def)
qed

lemma example_fetch_p0:
  "fetchSnapshot exampleEnv True exampleId =
     Inr (Fetched (exampleSnapshot\<lparr>description := Some (js ''N/A'')\<rparr>))"
  by (simp add: fetchSnapshot_def example_upstream example_response_p0)

text \<open>
  A request that misses the cache, resolves its input and fetches a channel answers with
  the new snapshot and stores it, stamped with the clock at \<open>cache.set\<close>.
\<close>

lemma handleChannelRequest_fetch:
  assumes "cacheHit c inp (clock_check e) = None"
    and "extractChannelId_p0 (lookupHandle e) inp = (Inr (Some k), qs)" and "k \<noteq> []"
    and "fetchSnapshot e True k = Inr (Fetched rd)"
  shows "handleChannelRequest e c inp =
     (Inr (Json rd None), c(inp \<mapsto> \<lparr>data = rd, timestamp = clock_store e\<rparr>),
      map HandleLookup qs @ [ChannelFetch k])"
  using assms by (simp add: handleChannelRequest_def)

lemma postYoutubeAge_fetch:
  assumes "extractChannelId (lookupHandle e) inp = (Inr (Some k), qs)" and "k \<noteq> []"
    and "cacheHit c k (clock_check e) = None"
    and "fetchSnapshot e False k = Inr (Fetched rd)"
  shows "postYoutubeAge e c (Some inp) =
     (Inr (Json rd (Some False)), c(k \<mapsto> \<lparr>data = rd, timestamp = clock_store e\<rparr>),
      map HandleLookup qs @ [ChannelFetch k])"
proof -
  have "inp \<noteq> []" using assms(1) by (auto simp: extractChannelId_def)
  then show ?thesis using assms by (simp add: postYoutubeAge_def)
qed

lemma example_request_p0:
  "handleChannelRequest exampleEnv Map.empty (js ''@MrBeast'') =
     (Inr (Json (exampleSnapshot\<lparr>description := Some (js ''N/A'')\<rparr>) None),
      [js ''@MrBeast'' \<mapsto>
         \<lparr>data = exampleSnapshot\<lparr>description := Some (js ''N/A'')\<rparr>,
          timestamp = Date_UTC 2024 2 10\<rparr>],
      [HandleLookup (js ''MrBeast''), ChannelFetch exampleId])"
  using handleChannelRequest_fetch [OF cacheHit_empty example_resolve_p0 example_nonempty(1)
      example_fetch_p0]
  by (simp add: example_upstream)

text \<open>
  Claim C7. A snapshot that a request stored is what a later request for the same key
  gets back while the entry is fresh, field for field: part_000 answers with the stored
  snapshot itself, youtube-backend.js with the stored snapshot and \<open>is_cached\<close> true
  where the first answer had \<open>is_cached\<close> false. A request that misses the cache and
  fetches a channel does store its snapshot, so the round trip takes place.
\<close>

theorem cache_round_trip:
  "(cacheHit c inp (clock_check e) = None \<and>
    handleChannelRequest e c inp = (Inr (Json rd m), c', calls) \<and>
    clock_check e' - clock_store e < 24 * 60 * 60 * 1000 \<longrightarrow>
      handleChannelRequest e' c' inp = (Inr (Json rd None), c', [])) \<and>
   (postYoutubeAge e c (Some inp) = (Inr (Json rd (Some False)), cB, callsB) \<and>
    extractChannelId (lookupHandle e) inp = (Inr (Some k), qs) \<and>
    extractChannelId (lookupHandle e') inp' = (Inr (Some k), qs') \<and>
    clock_check e' - clock_store e < 24 * 60 * 60 * 1000 \<longrightarrow>
      postYoutubeAge e' cB (Some inp') = (Inr (Json rd (Some True)), cB, map HandleLookup qs')) \<and>
   (cacheHit c inp (clock_check e) = None \<and>
    extractChannelId_p0 (lookupHandle e) inp = (Inr (Some kp), qsp) \<and> kp \<noteq> [] \<and>
    fetchSnapshot e True kp = Inr (Fetched rdp) \<and>
    clock_check e' - clock_store e < 24 * 60 * 60 * 1000 \<longrightarrow>
      handleChannelRequest e c inp =
        (Inr (Json rdp None), c(inp \<mapsto> \<lparr>data = rdp, timestamp = clock_store e\<rparr>),
         map HandleLookup qsp @ [ChannelFetch kp]) \<and>
      handleChannelRequest e' (c(inp \<mapsto> \<lparr>data = rdp, timestamp = clock_store e\<rparr>)) inp =
        (Inr (Json rdp None), c(inp \<mapsto> \<lparr>data = rdp, timestamp = clock_store e\<rparr>), [])) \<and>
   (extractChannelId (lookupHandle e) inp = (Inr (Some k), qs) \<and> k \<noteq> [] \<and>
    cacheHit c k (clock_check e) = None \<and> fetchSnapshot e False k = Inr (Fetched rdb) \<and>
    extractChannelId (lookupHandle e') inp' = (Inr (Some k), qs') \<and>
    clock_check e' - clock_store e < 24 * 60 * 60 * 1000 \<longrightarrow>
      postYoutubeAge e c (Some inp) =
        (Inr (Json rdb (Some False)), c(k \<mapsto> \<lparr>data = rdb, timestamp = clock_store e\<rparr>),
         map HandleLookup qs @ [ChannelFetch k]) \<and>
      postYoutubeAge e' (c(k \<mapsto> \<lparr>data = rdb, timestamp = clock_store e\<rparr>)) (Some inp') =
        (Inr (Json rdb (Some True)), c(k \<mapsto> \<lparr>data = rdb, timestamp = clock_store e\<rparr>),
         map HandleLookup qs'))"
proof -
  have A: "cacheHit c inp (clock_check e) = None \<and>
    handleChannelRequest e c inp = (Inr (Json rd m), c', calls) \<and>
    clock_check e' - clock_store e < 24 * 60 * 60 * 1000 \<longrightarrow>
      handleChannelRequest e' c' inp = (Inr (Json rd None), c', [])"
    for c inp e rd m c' calls e'
  proof
    assume a: "cacheHit c inp (clock_check e) = None \<and>
      handleChannelRequest e c inp = (Inr (Json rd m), c', calls) \<and>
      clock_check e' - clock_store e < 24 * 60 * 60 * 1000"
    then have "c' = c(inp \<mapsto> \<lparr>data = rd, timestamp = clock_store e\<rparr>)"
      using handleChannelRequest_cases [of e c inp "Inr (Json rd m)" c' calls] by auto
    then have "cacheHit c' inp (clock_check e') = Some \<lparr>data = rd, timestamp = clock_store e\<rparr>"
      using a by (simp add: cacheHit_def CACHE_TTL_def)
    then show "handleChannelRequest e' c' inp = (Inr (Json rd None), c', [])"
      using handleChannelRequest_hit by fastforce
  qed
  have B: "postYoutubeAge e c (Some inp) = (Inr (Json rd (Some False)), cB, callsB) \<and>
    extractChannelId (lookupHandle e) inp = (Inr (Some k), qs) \<and>
    extractChannelId (lookupHandle e') inp' = (Inr (Some k), qs') \<and>
    clock_check e' - clock_store e < 24 * 60 * 60 * 1000 \<longrightarrow>
      postYoutubeAge e' cB (Some inp') = (Inr (Json rd (Some True)), cB, map HandleLookup qs')"
    for c inp e rd cB callsB e' inp' k qs qs'
  proof
    assume a: "postYoutubeAge e c (Some inp) = (Inr (Json rd (Some False)), cB, callsB) \<and>
      extractChannelId (lookupHandle e) inp = (Inr (Some k), qs) \<and>
      extractChannelId (lookupHandle e') inp' = (Inr (Some k), qs') \<and>
      clock_check e' - clock_store e < 24 * 60 * 60 * 1000"
    then have s: "k \<noteq> [] \<and> cB = c(k \<mapsto> \<lparr>data = rd, timestamp = clock_store e\<rparr>)"
      using postYoutubeAge_cases [of e c "Some inp" "Inr (Json rd (Some False))" cB callsB] by auto
    then have "cacheHit cB k (clock_check e') = Some \<lparr>data = rd, timestamp = clock_store e\<rparr>"
      using a by (simp add: cacheHit_def CACHE_TTL_def)
    then show "postYoutubeAge e' cB (Some inp') =
        (Inr (Json rd (Some True)), cB, map HandleLookup qs')"
      using a s postYoutubeAge_hit [of e' inp' k qs' cB] by fastforce
  qed
  have C: "cacheHit c inp (clock_check e) = None \<and>
    extractChannelId_p0 (lookupHandle e) inp = (Inr (Some kp), qsp) \<and> kp \<noteq> [] \<and>
    fetchSnapshot e True kp = Inr (Fetched rdp) \<and>
    clock_check e' - clock_store e < 24 * 60 * 60 * 1000 \<longrightarrow>
      handleChannelRequest e c inp =
        (Inr (Json rdp None), c(inp \<mapsto> \<lparr>data = rdp, timestamp = clock_store e\<rparr>),
         map HandleLookup qsp @ [ChannelFetch kp]) \<and>
      handleChannelRequest e' (c(inp \<mapsto> \<lparr>data = rdp, timestamp = clock_store e\<rparr>)) inp =
        (Inr (Json rdp None), c(inp \<mapsto> \<lparr>data = rdp, timestamp = clock_store e\<rparr>), [])"
  proof
    assume a: "cacheHit c inp (clock_check e) = None \<and>
      extractChannelId_p0 (lookupHandle e) inp = (Inr (Some kp), qsp) \<and> kp \<noteq> [] \<and>
      fetchSnapshot e True kp = Inr (Fetched rdp) \<and>
      clock_check e' - clock_store e < 24 * 60 * 60 * 1000"
    then have f: "handleChannelRequest e c inp =
        (Inr (Json rdp None), c(inp \<mapsto> \<lparr>data = rdp, timestamp = clock_store e\<rparr>),
         map HandleLookup qsp @ [ChannelFetch kp])"
      using handleChannelRequest_fetch by blast
    with a A [of c inp e rdp None _ _ e']
    show "handleChannelRequest e c inp =
        (Inr (Json rdp None), c(inp \<mapsto> \<lparr>data = rdp, timestamp = clock_store e\<rparr>),
         map HandleLookup qsp @ [ChannelFetch kp]) \<and>
      handleChannelRequest e' (c(inp \<mapsto> \<lparr>data = rdp, timestamp = clock_store e\<rparr>)) inp =
        (Inr (Json rdp None), c(inp \<mapsto> \<lparr>data = rdp, timestamp = clock_store e\<rparr>), [])"
      by blast
  qed
  have D: "extractChannelId (lookupHandle e) inp = (Inr (Some k), qs) \<and> k \<noteq> [] \<and>
    cacheHit c k (clock_check e) = None \<and> fetchSnapshot e False k = Inr (Fetched rdb) \<and>
    extractChannelId (lookupHandle e') inp' = (Inr (Some k), qs') \<and>
    clock_check e' - clock_store e < 24 * 60 * 60 * 1000 \<longrightarrow>
      postYoutubeAge e c (Some inp) =
        (Inr (Json rdb (Some False)), c(k \<mapsto> \<lparr>data = rdb, timestamp = clock_store e\<rparr>),
         map HandleLookup qs @ [ChannelFetch k]) \<and>
      postYoutubeAge e' (c(k \<mapsto> \<lparr>data = rdb, timestamp = clock_store e\<rparr>)) (Some inp') =
        (Inr (Json rdb (Some True)), c(k \<mapsto> \<lparr>data = rdb, timestamp = clock_store e\<rparr>),
         map HandleLookup qs')"
  proof
    assume a: "extractChannelId (lookupHandle e) inp = (Inr (Some k), qs) \<and> k \<noteq> [] \<and>
      cacheHit c k (clock_check e) = None \<and> fetchSnapshot e False k = Inr (Fetched rdb) \<and>
      extractChannelId (lookupHandle e') inp' = (Inr (Some k), qs') \<and>
      clock_check e' - clock_store e < 24 * 60 * 60 * 1000"
    then have f: "postYoutubeAge e c (Some inp) =
        (Inr (Json rdb (Some False)), c(k \<mapsto> \<lparr>data = rdb, timestamp = clock_store e\<rparr>),
         map HandleLookup qs @ [ChannelFetch k])"
      using postYoutubeAge_fetch by blast
    with a B [of e c inp rdb _ _ k qs e' inp' qs']
    show "postYoutubeAge e c (Some inp) =
        (Inr (Json rdb (Some False)), c(k \<mapsto> \<lparr>data = rdb, timestamp = clock_store e\<rparr>),
         map HandleLookup qs @ [ChannelFetch k]) \<and>
      postYoutubeAge e' (c(k \<mapsto> \<lparr>data = rdb, timestamp = clock_store e\<rparr>)) (Some inp') =
        (Inr (Json rdb (Some True)), c(k \<mapsto> \<lparr>data = rdb, timestamp = clock_store e\<rparr>),
         map HandleLookup qs')"
      by blast
  qed
  from A B C D show ?thesis by blast
qed

theorem cache_round_trip_witness:
  "handleChannelRequest exampleEnv Map.empty (js ''@MrBeast'') =
     (Inr (Json (exampleSnapshot\<lparr>description := Some (js ''N/A'')\<rparr>) None),
      [js ''@MrBeast'' \<mapsto>
         \<lparr>data = exampleSnapshot\<lparr>description := Some (js ''N/A'')\<rparr>,
          timestamp = Date_UTC 2024 2 10\<rparr>],
      [HandleLookup (js ''MrBeast''), ChannelFetch exampleId]) \<and>
   handleChannelRequest exampleEnv
     [js ''@MrBeast'' \<mapsto>
        \<lparr>data = exampleSnapshot\<lparr>description := Some (js ''N/A'')\<rparr>,
         timestamp = Date_UTC 2024 2 10\<rparr>]
     (js ''@MrBeast'') =
     (Inr (Json (exampleSnapshot\<lparr>description := Some (js ''N/A'')\<rparr>) None),
      [js ''@MrBeast'' \<mapsto>
         \<lparr>data = exampleSnapshot\<lparr>description := Some (js ''N/A'')\<rparr>,
          timestamp = Date_UTC 2024 2 10\<rparr>],
      []) \<and>
   postYoutubeAge exampleEnv Map.empty (Some (js ''@MrBeast'')) =
     (Inr (Json exampleSnapshot (Some False)),
      [exampleId \<mapsto> \<lparr>data = exampleSnapshot, timestamp = Date_UTC 2024 2 10\<rparr>],
      [HandleLookup (js ''MrBeast''), ChannelFetch exampleId]) \<and>
   postYoutubeAge exampleEnv
     [exampleId \<mapsto> \<lparr>data = exampleSnapshot, timestamp = Date_UTC 2024 2 10\<rparr>]
     (Some (js ''@MrBeast'')) =
     (Inr (Json exampleSnapshot (Some True)),
      [exampleId \<mapsto> \<lparr>data = exampleSnapshot, timestamp = Date_UTC 2024 2 10\<rparr>],
      [HandleLookup (js ''MrBeast'')])"
proof -
  let ?sp = "exampleSnapshot\<lparr>description := Some (js ''N/A'')\<rparr>"
  note w = cache_round_trip [where e = exampleEnv and e' = exampleEnv and c = Map.empty
      and inp = "js ''@MrBeast''" and inp' = "js ''@MrBeast''"
      and rd = ?sp and m = None
      and c' = "[js ''@MrBeast'' \<mapsto> \<lparr>data = ?sp, timestamp = Date_UTC 2024 2 10\<rparr>]"
      and calls = "[HandleLookup (js ''MrBeast''), ChannelFetch exampleId]"
      and kp = exampleId and qsp = "[js ''MrBeast'']" and rdp = ?sp
      and k = exampleId and qs = "[js ''MrBeast'']" and qs' = "[js ''MrBeast'']"
      and rdb = exampleSnapshot]
  have t: "clock_check exampleEnv - clock_store exampleEnv < 24 * 60 * 60 * 1000"
    by (simp add: example_upstream)
  from w example_request_p0 example_resolve_p0 example_fetch_p0 example_resolve example_fetch
    cacheHit_empty example_nonempty(1) t
  show ?thesis by (simp add: example_upstream)
qed

section \<open>Failed requests and the cache\<close>

text \<open>
  Claim C10. A request that ends in an error response, or whose handler's promise
  rejects, leaves the cache as it was. The cache changes only by one entry, written
  after the metadata fetch and the normalisation succeeded, which holds the snapshot
  that the same request answers with.
\<close>

theorem failed_request_leaves_cache:
  "(postYoutubeAge e c i = (r, c', calls) \<longrightarrow>
      ((\<exists>x. r = Inl x) \<or> (\<exists>n msg. r = Inr (ErrorJson n msg)) \<longrightarrow> c' = c) \<and>
      (c' \<noteq> c \<longrightarrow>
         (\<exists>k rd. fetchSnapshot e False k = Inr (Fetched rd) \<and> r = Inr (Json rd (Some False)) \<and>
            c' = c(k \<mapsto> \<lparr>data = rd, timestamp = clock_store e\<rparr>)))) \<and>
   (routeYoutubeAge_p0 e c i = (rP, cP, callsP) \<longrightarrow>
      ((\<exists>x. rP = Inl x) \<or> (\<exists>n msg. rP = Inr (ErrorJson n msg)) \<longrightarrow> cP = c) \<and>
      (cP \<noteq> c \<longrightarrow>
         (\<exists>inp k rd. i = Some inp \<and> fetchSnapshot e True k = Inr (Fetched rd) \<and>
            rP = Inr (Json rd None) \<and>
            cP = c(inp \<mapsto> \<lparr>data = rd, timestamp = clock_store e\<rparr>))))"
proof (intro conjI impI)
  assume a: "postYoutubeAge e c i = (r, c', calls)"
  assume "(\<exists>x. r = Inl x) \<or> (\<exists>n msg. r = Inr (ErrorJson n msg))"
  then show "c' = c" using postYoutubeAge_cases [OF a] by auto
next
  assume a: "postYoutubeAge e c i = (r, c', calls)"
  assume "c' \<noteq> c"
  then show "\<exists>k rd. fetchSnapshot e False k = Inr (Fetched rd) \<and> r = Inr (Json rd (Some False)) \<and>
            c' = c(k \<mapsto> \<lparr>data = rd, timestamp = clock_store e\<rparr>)"
    using postYoutubeAge_cases [OF a] by blast
next
  assume a: "routeYoutubeAge_p0 e c i = (rP, cP, callsP)"
  assume "(\<exists>x. rP = Inl x) \<or> (\<exists>n msg. rP = Inr (ErrorJson n msg))"
  then show "cP = c" using routeYoutubeAge_p0_cases [OF a] by auto
next
  assume a: "routeYoutubeAge_p0 e c i = (rP, cP, callsP)"
  assume "cP \<noteq> c"
  then show "\<exists>inp k rd. i = Some inp \<and> fetchSnapshot e True k = Inr (Fetched rd) \<and>
            rP = Inr (Json rd None) \<and>
            cP = c(inp \<mapsto> \<lparr>data = rd, timestamp = clock_store e\<rparr>)"
    using routeYoutubeAge_p0_cases [OF a] by blast
qed


lemma malformed_percent: "decodeURIComponent (js ''%'') = Inl URIError"
  by (simp add: js_def hexByte_def)

theorem failed_request_leaves_cache_witness:
  "postYoutubeAge exampleEnv
     [exampleId \<mapsto> \<lparr>data = exampleSnapshot, timestamp = 1000\<rparr>] (Some (js ''@nobody'')) =
     (Inr (ErrorJson 400 (js ''Invalid channel URL or ID'')),
      [exampleId \<mapsto> \<lparr>data = exampleSnapshot, timestamp = 1000\<rparr>],
      [HandleLookup (js ''nobody'')]) \<and>
   routeYoutubeAge_p0 exampleEnv
     [exampleId \<mapsto> \<lparr>data = exampleSnapshot, timestamp = 1000\<rparr>] (Some (js ''%'')) =
     (Inr (ErrorJson 400 (js ''Invalid channel URL, handle, or ID'')),
      [exampleId \<mapsto> \<lparr>data = exampleSnapshot, timestamp = 1000\<rparr>], [])"
proof -
  let ?c = "[exampleId \<mapsto> \<lparr>data = exampleSnapshot, timestamp = 1000\<rparr>]"
  obtain r c' calls where b: "postYoutubeAge exampleEnv ?c (Some (js ''@nobody'')) = (r, c', calls)"
    by (cases "postYoutubeAge exampleEnv ?c (Some (js ''@nobody''))")
  obtain rP cP callsP where p: "routeYoutubeAge_p0 exampleEnv ?c (Some (js ''%'')) = (rP, cP, callsP)"
    by (cases "routeYoutubeAge_p0 exampleEnv ?c (Some (js ''%''))")
  have rb: "r = Inr (ErrorJson 400 (js ''Invalid channel URL or ID''))"
    and cb: "calls = [HandleLookup (js ''nobody'')]"
    using b by (simp_all add: postYoutubeAge_def example_nonempty example_resolve_nobody)
  have ne: "js ''%'' \<noteq> []" "js ''%'' \<noteq> exampleId" by (simp_all add: js_def exampleId_def)
  have rp: "rP = Inr (ErrorJson 400 (js ''Invalid channel URL, handle, or ID''))"
    and cp: "callsP = []"
    using p ne
    by (simp_all add: routeYoutubeAge_p0_def handleChannelRequest_def cacheHit_def
        extractChannelId_p0_def malformed_percent)
  have "c' = ?c \<and> cP = ?c"
    using failed_request_leaves_cache [where e = exampleEnv and c = ?c and i = "Some (js ''@nobody'')"
        and r = r and c' = c' and calls = calls] b rb
      failed_request_leaves_cache [where e = exampleEnv and c = ?c and i = "Some (js ''%'')"
        and rP = rP and cP = cP and callsP = callsP] p rp
    by simp
  then show ?thesis using b p rb cb rp cp by simp
qed

section \<open>Subscribers and the verification status\<close>

lemma responseData_fields:
  assumes "responseData e wd ch = Inr s"
  shows "\<exists>sn st. item_snippet ch = Some sn \<and> item_statistics ch = Some st \<and>
      subscribers s = parseInt (orDefault (subscriberCount st) (js ''0'')) \<and>
      verification_status s =
        (if (case subscribers s of None \<Rightarrow> False | Some n \<Rightarrow> 100000 \<le> n)
         then js ''Verified'' else js ''Not Verified'')"
  using assms
  by (auto simp: responseData_def Let_def split: option.splits prod.splits)


lemma fetchSnapshot_Fetched:
  assumes "fetchSnapshot e wd cid = Inr (Fetched s)"
  shows "\<exists>ch. responseData e wd ch = Inr s"
proof (cases "fetchChannel e cid")
  case FetchRejected
  then show ?thesis using assms by (simp add: fetchSnapshot_def)
next
  case (Responded status b)
  show ?thesis
  proof (cases b)
    case Rejected
    then show ?thesis using assms Responded by (simp add: fetchSnapshot_def split: if_splits)
  next
    case (Fulfilled v)
    show ?thesis
    proof (cases v)
      case JsonNull
      then show ?thesis
        using assms Responded Fulfilled by (simp add: fetchSnapshot_def split: if_splits)
    next
      case (JsonValue items)
      show ?thesis
      proof (cases items)
        case None
        then show ?thesis
          using assms Responded Fulfilled JsonValue
          by (simp add: fetchSnapshot_def split: if_splits)
      next
        case (Some chs)
        show ?thesis
        proof (cases chs)
          case Nil
          then show ?thesis
            using assms Responded Fulfilled JsonValue Some
            by (simp add: fetchSnapshot_def split: if_splits)
        next
          case (Cons ch rest)
          then have "map_sum id Fetched (responseData e wd ch) = Inr (Fetched s)"
            using assms Responded Fulfilled JsonValue Some
            by (simp add: fetchSnapshot_def split: if_splits)
          then have "responseData e wd ch = Inr s"
            by (cases "responseData e wd ch") simp_all
          then show ?thesis ..
        qed
      qed
    qed
  qed
qed

lemma status_texts_differ: "js ''Verified'' \<noteq> js ''Not Verified''"
  by (simp add: js_def)

lemma parseInt_threshold:
  "parseInt (js ''100000'') = Some 100000" "parseInt (js ''99999'') = Some 99999"
  by (simp_all add: parseInt_eval)

lemma orDefault_Some: "s \<noteq> [] \<Longrightarrow> orDefault (Some s) d = s"
  by (simp add: orDefault_def)

text \<open>
  Claim C8. In the snapshot of every successfully fetched channel the verification
  status is \<open>Verified\<close> exactly when the parsed subscriber count is a number that is at
  least 100000, and \<open>Not Verified\<close> otherwise; a count of \<open>100000\<close> gives \<open>Verified\<close> and
  \<open>99999\<close> gives \<open>Not Verified\<close>.
\<close>

theorem verification_threshold:
  "(fetchSnapshot e wd cid = Inr (Fetched s) \<longrightarrow>
      (verification_status s = js ''Verified'' \<longleftrightarrow> (\<exists>n. subscribers s = Some n \<and> 100000 \<le> n)) \<and>
      (verification_status s = js ''Not Verified'' \<longleftrightarrow>
         \<not> (\<exists>n. subscribers s = Some n \<and> 100000 \<le> n))) \<and>
   (responseData e wd ch = Inr t \<and> item_statistics ch = Some st \<longrightarrow>
      (subscriberCount st = Some (js ''100000'') \<longrightarrow>
         subscribers t = Some 100000 \<and> verification_status t = js ''Verified'') \<and>
      (subscriberCount st = Some (js ''99999'') \<longrightarrow>
         subscribers t = Some 99999 \<and> verification_status t = js ''Not Verified''))"
proof (intro conjI impI)
  assume "fetchSnapshot e wd cid = Inr (Fetched s)"
  then obtain c where "responseData e wd c = Inr s" using fetchSnapshot_Fetched by blast
  from responseData_fields [OF this]
  have v: "verification_status s =
        (if (case subscribers s of None \<Rightarrow> False | Some n \<Rightarrow> 100000 \<le> n)
         then js ''Verified'' else js ''Not Verified'')" by blast
  show "verification_status s = js ''Verified'' \<longleftrightarrow> (\<exists>n. subscribers s = Some n \<and> 100000 \<le> n)"
    unfolding v using status_texts_differ by (cases "subscribers s") auto
  show "verification_status s = js ''Not Verified'' \<longleftrightarrow>
         \<not> (\<exists>n. subscribers s = Some n \<and> 100000 \<le> n)"
    unfolding v using status_texts_differ by (cases "subscribers s") auto
next
  assume a: "responseData e wd ch = Inr t \<and> item_statistics ch = Some st"
  assume b: "subscriberCount st = Some (js ''100000'')"
  have n: "js ''100000'' \<noteq> []" by (simp add: js_def)
  from a responseData_fields [of e wd ch t]
  have f: "subscribers t = parseInt (orDefault (subscriberCount st) (js ''0''))"
    "verification_status t =
        (if (case subscribers t of None \<Rightarrow> False | Some n \<Rightarrow> 100000 \<le> n)
         then js ''Verified'' else js ''Not Verified'')" by auto
  show "subscribers t = Some 100000" by (simp add: f(1) b orDefault_Some [OF n] parseInt_threshold)
  then show "verification_status t = js ''Verified''" by (simp add: f(2))
next
  assume a: "responseData e wd ch = Inr t \<and> item_statistics ch = Some st"
  assume b: "subscriberCount st = Some (js ''99999'')"
  have n: "js ''99999'' \<noteq> []" by (simp add: js_def)
  from a responseData_fields [of e wd ch t]
  have f: "subscribers t = parseInt (orDefault (subscriberCount st) (js ''0''))"
    "verification_status t =
        (if (case subscribers t of None \<Rightarrow> False | Some n \<Rightarrow> 100000 \<le> n)
         then js ''Verified'' else js ''Not Verified'')" by auto
  show "subscribers t = Some 99999" by (simp add: f(1) b orDefault_Some [OF n] parseInt_threshold)
  then show "verification_status t = js ''Not Verified''" by (simp add: f(2))
qed

theorem verification_threshold_witness:
  "fetchSnapshot exampleEnv False exampleId = Inr (Fetched exampleSnapshot) \<and>
   subscribers exampleSnapshot = Some 100000 \<and>
   verification_status exampleSnapshot = js ''Verified''"
  using verification_threshold [where e = exampleEnv and wd = False and cid = exampleId
      and s = exampleSnapshot and ch = exampleChannel and t = exampleSnapshot
      and st = "\<lparr>subscriberCount = Some (js ''100000'')\<rparr>"]
    example_fetch example_response
  by (simp add: exampleChannel_def)









section \<open>Percent-decoding\<close>

lemma extractChannelId_p0_undecodable:
  "decodeURIComponent input = Inl x \<Longrightarrow> extractChannelId_p0 lookup input = (Inr None, [])"
  by (simp add: extractChannelId_p0_def)

lemma extractChannelId_p0_decodes:
  assumes "extractChannelId_p0 lookup input = (Inr (Some k), qs)"
  shows "\<exists>d. decodeURIComponent input = Inr d"
  using assms by (cases "decodeURIComponent input") (simp_all add: extractChannelId_p0_def)

lemma reachable_p0_keys_decode:
  assumes "reachable_p0 c" and "decodeURIComponent k = Inl x"
  shows "c k = None"
  using assms
proof (induction rule: reachable_p0.induct)
  case fresh
  then show ?case by simp
next
  case (request c e i r c' calls)
  from routeYoutubeAge_p0_cases [OF request.hyps(2)] show ?case
  proof
    assume "c' = c \<and>
      ((\<exists>x. r = Inl x) \<or> (\<exists>n msg. r = Inr (ErrorJson n msg)) \<or>
       (\<exists>inp en. i = Some inp \<and> cacheHit c inp (clock_check e) = Some en \<and>
          r = Inr (Json (data en) None)))"
    then show ?thesis using request by simp
  next
    assume "\<exists>inp k qs rd. i = Some inp \<and> cacheHit c inp (clock_check e) = None \<and>
       extractChannelId_p0 (lookupHandle e) inp = (Inr (Some k), qs) \<and> k \<noteq> [] \<and>
       fetchSnapshot e True k = Inr (Fetched rd) \<and> r = Inr (Json rd None) \<and>
       c' = c(inp \<mapsto> \<lparr>data = rd, timestamp = clock_store e\<rparr>)"
    then obtain inp k' qs rd where
      x: "extractChannelId_p0 (lookupHandle e) inp = (Inr (Some k'), qs)"
      and c': "c' = c(inp \<mapsto> \<lparr>data = rd, timestamp = clock_store e\<rparr>)" by blast
    from extractChannelId_p0_decodes [OF x] request.prems have "inp \<noteq> k" by auto
    then show ?thesis using c' request by simp
  qed
qed

lemma undecodable_bad_request:
  assumes "reachable_p0 c" and "decodeURIComponent input = Inl x"
  shows "routeYoutubeAge_p0 e c (Some input) =
     (Inr (ErrorJson 400 (js ''Invalid channel URL, handle, or ID'')), c, [])"
proof -
  have "input \<noteq> []" using assms(2) by auto
  moreover have "cacheHit c input (clock_check e) = None"
    using reachable_p0_keys_decode [OF assms] by (simp add: cacheHit_def)
  ultimately show ?thesis
    using assms(2)
    by (simp add: routeYoutubeAge_p0_def handleChannelRequest_def extractChannelId_p0_undecodable)
qed

text \<open>
  Claim C3, as the program has it. In part_000, the variant that serves GET requests,
  the input is percent-decoded before any pattern is matched: the result depends on the
  decoded text only, and an input with a malformed percent-encoding gives \<open>null\<close>, no
  upstream call and the response 400, on every cache the routes can have built.
  youtube-backend.js does not decode: what it matches is the trimmed input.
\<close>

theorem percent_decoding_p0:
  "(decodeURIComponent input = Inl x \<longrightarrow>
      extractChannelId_p0 lookup input = (Inr None, []) \<and>
      (reachable_p0 c \<longrightarrow>
         routeYoutubeAge_p0 e c (Some input) =
           (Inr (ErrorJson 400 (js ''Invalid channel URL, handle, or ID'')), c, []))) \<and>
   (decodeURIComponent input = Inr d \<and> decodeURIComponent input' = Inr d \<longrightarrow>
      extractChannelId_p0 lookup input = extractChannelId_p0 lookup input') \<and>
   (input \<noteq> [] \<and> input' \<noteq> [] \<and> trim_js input = trim_js input' \<longrightarrow>
      extractChannelId lookup input = extractChannelId lookup input')"
proof (intro conjI impI)
  assume "decodeURIComponent input = Inl x"
  then show "extractChannelId_p0 lookup input = (Inr None, [])"
    by (rule extractChannelId_p0_undecodable)
next
  assume "decodeURIComponent input = Inl x" and "reachable_p0 c"
  then show "routeYoutubeAge_p0 e c (Some input) =
           (Inr (ErrorJson 400 (js ''Invalid channel URL, handle, or ID'')), c, [])"
    using undecodable_bad_request by blast
next
  assume "decodeURIComponent input = Inr d \<and> decodeURIComponent input' = Inr d"
  then show "extractChannelId_p0 lookup input = extractChannelId_p0 lookup input'"
    by (simp add: extractChannelId_p0_def)
next
  assume "input \<noteq> [] \<and> input' \<noteq> [] \<and> trim_js input = trim_js input'"
  then show "extractChannelId lookup input = extractChannelId lookup input'"
    by (simp add: extractChannelId_def)
qed

lemma encoded_id:
  "decodeURIComponent (js ''%55CX6OQ3DkcsbYNE6H8uQQuVA'') = Inr exampleId"
  "decodeURIComponent exampleId = Inr exampleId"
  by (simp_all add: js_def exampleId_def hexByte_def hexDigit_def)

theorem percent_decoding_p0_witness:
  "routeYoutubeAge_p0 exampleEnv Map.empty (Some (js ''%'')) =
     (Inr (ErrorJson 400 (js ''Invalid channel URL, handle, or ID'')), Map.empty, []) \<and>
   extractChannelId_p0 (lookupHandle exampleEnv) (js ''%55CX6OQ3DkcsbYNE6H8uQQuVA'') =
     (Inr (Some exampleId), [])"
proof -
  have "isChannelId exampleId" by (simp add: match_eval exampleId_def)
  then have i: "extractChannelId_p0 (lookupHandle exampleEnv) exampleId = (Inr (Some exampleId), [])"
    by (simp add: extractChannelId_p0_def encoded_id)
  note w1 = percent_decoding_p0 [where input = "js ''%''" and x = URIError and c = Map.empty
      and e = exampleEnv]
  note w2 = percent_decoding_p0 [where input = "js ''%55CX6OQ3DkcsbYNE6H8uQQuVA''"
      and input' = exampleId and d = exampleId and lookup = "lookupHandle exampleEnv"]
  show ?thesis
    using w1 w2 malformed_percent reachable_p0.fresh encoded_id i by simp
qed

lemma resolve_percent:
  "trim_js (js ''%'') = js ''%''" "\<not> isChannelId (js ''%'')" "channelMatch (js ''%'') = None"
  "handleMatch (js ''%'') = Some (js ''%'')" "stripAt (js ''%'') = js ''%''"
  "encodeURIComponent (js ''%'') = Inr (js ''%25'')"
  by (simp_all add: match_eval uriUnreserved_def percentEncode_def utf8Octets_def
      percentByte_def hexChar_def)

lemma resolve_encoded_id:
  "trim_js (js ''%55CX6OQ3DkcsbYNE6H8uQQuVA'') = js ''%55CX6OQ3DkcsbYNE6H8uQQuVA''"
  "\<not> isChannelId (js ''%55CX6OQ3DkcsbYNE6H8uQQuVA'')"
  "channelMatch (js ''%55CX6OQ3DkcsbYNE6H8uQQuVA'') = None"
  "handleMatch (js ''%55CX6OQ3DkcsbYNE6H8uQQuVA'') = Some (js ''%55CX6OQ3DkcsbYNE6H8uQQuVA'')"
  "stripAt (js ''%55CX6OQ3DkcsbYNE6H8uQQuVA'') = js ''%55CX6OQ3DkcsbYNE6H8uQQuVA''"
  "encodeURIComponent (js ''%55CX6OQ3DkcsbYNE6H8uQQuVA'') = Inr (js ''%2555CX6OQ3DkcsbYNE6H8uQQuVA'')"
  by (simp_all add: match_eval uriUnreserved_def percentEncode_def utf8Octets_def
      percentByte_def hexChar_def)

theorem percent_decoding_counterexample:
  "decodeURIComponent (js ''%'') = Inl URIError \<and>
   extractChannelId (\<lambda>q. Responded 200 (Fulfilled (JsonValue (Some [Some exampleId])))) (js ''%'') =
     (Inr (Some exampleId), [js ''%25'']) \<and>
   decodeURIComponent (js ''%55CX6OQ3DkcsbYNE6H8uQQuVA'') = Inr exampleId \<and>
   extractChannelId (\<lambda>q. Responded 200 (Fulfilled (JsonValue (Some []))))
     (js ''%55CX6OQ3DkcsbYNE6H8uQQuVA'') =
     (Inr None, [js ''%2555CX6OQ3DkcsbYNE6H8uQQuVA''])"
proof -
  have n: "js ''%'' \<noteq> []" "js ''%55CX6OQ3DkcsbYNE6H8uQQuVA'' \<noteq> []" by (simp_all add: js_def)
  have 1: "extractChannelId (\<lambda>q. Responded 200 (Fulfilled (JsonValue (Some [Some exampleId]))))
      (js ''%'') = (Inr (Some exampleId), [js ''%25''])"
    by (simp add: extractChannelId_def n resolve_percent firstItemId_def)
  have 2: "extractChannelId (\<lambda>q. Responded 200 (Fulfilled (JsonValue (Some []))))
     (js ''%55CX6OQ3DkcsbYNE6H8uQQuVA'') = (Inr None, [js ''%2555CX6OQ3DkcsbYNE6H8uQQuVA''])"
    by (simp add: extractChannelId_def n resolve_encoded_id firstItemId_def)
  show ?thesis using malformed_percent encoded_id(1) 1 2 by simp
qed

section \<open>Handle lookups\<close>

text \<open>
  youtube-backend.js on a handle form: one lookup, named by the encoded handle; the
  first item's ID when there is one, and \<open>null\<close> for an empty list, a missing list, a
  rejected fetch and a body that is not JSON alike.
\<close>

lemma extractChannelId_handle_form:
  assumes "input \<noteq> []" and "\<not> isChannelId (trim_js input)"
    and "channelMatch (trim_js input) = None" and "handleMatch (trim_js input) = Some g"
    and "encodeURIComponent (stripAt g) = Inr q"
  shows "extractChannelId lookup input =
     ((case firstItemId (lookup q) of Inr (Some v) \<Rightarrow> Inr v | _ \<Rightarrow> Inr None), [q])"
  using assms
  by (simp add: extractChannelId_def Let_def split: sum.splits option.splits)

lemma extractChannelId_never_rejects: "\<exists>v. fst (extractChannelId lookup input) = Inr v"
  by (simp add: extractChannelId_def Let_def split: sum.splits option.splits)

text \<open>
  A handle that \<open>encodeURIComponent\<close> refuses (a surrogate without its pair) is caught by
  the same \<open>catch\<close>: \<open>null\<close>, and no lookup is sent.
\<close>

lemma extractChannelId_unencodable:
  assumes "input \<noteq> []" and "\<not> isChannelId (trim_js input)"
    and "channelMatch (trim_js input) = None" and "handleMatch (trim_js input) = Some g"
    and "encodeURIComponent (stripAt g) = Inl x"
  shows "extractChannelId lookup input = (Inr None, [])"
  using assms by (simp add: extractChannelId_def Let_def)

text \<open>part_000 on a handle form: one lookup, named by the handle as it is; an exception of the lookup leaves the function.\<close>

lemma extractChannelId_p0_handle_form:
  assumes "decodeURIComponent input = Inr d" and "\<not> isChannelId d"
    and "channelMatch d = None" and "customMatch d = Some name"
  shows "extractChannelId_p0 lookup input =
     ((case firstItemId (lookup name) of
         Inl x \<Rightarrow> Inl x | Inr (Some v) \<Rightarrow> Inr v | Inr None \<Rightarrow> Inr None), [name])"
  using assms
  by (simp add: extractChannelId_p0_def split: sum.splits option.splits)

lemma firstItemId_failures:
  "firstItemId FetchRejected = Inl FetchError"
  "firstItemId (Responded st Rejected) = Inl FetchError"
  "firstItemId (Responded st (Fulfilled JsonNull)) = Inl TypeError"
  "firstItemId (Responded st (Fulfilled (JsonValue None))) = Inr None"
  "firstItemId (Responded st (Fulfilled (JsonValue (Some [])))) = Inr None"
  "firstItemId (Responded st (Fulfilled (JsonValue (Some (i # rest))))) = Inr (Some i)"
  by (simp_all add: firstItemId_def)

text \<open>
  Claim C2, where the program breaks it. When the handle lookup throws (the fetch is
  rejected, or the body is not JSON), \<open>extractChannelId\<close> of part_000 rejects, and so
  does the route: no response is sent, 400 or other. youtube-backend.js catches the same
  failure: its \<open>extractChannelId\<close> gives \<open>null\<close> after the one lookup, as for an empty
  result list, and the handler answers 400.
\<close>

theorem handle_lookup_failure:
  "(input \<noteq> [] \<and> decodeURIComponent input = Inr d \<and> \<not> isChannelId d \<and> channelMatch d = None \<and>
    customMatch d = Some name \<and> firstItemId (lookupHandle e name) = Inl x \<and>
    cacheHit c input (clock_check e) = None \<longrightarrow>
      extractChannelId_p0 (lookupHandle e) input = (Inl x, [name]) \<and>
      routeYoutubeAge_p0 e c (Some input) = (Inl x, c, [HandleLookup name])) \<and>
   (input \<noteq> [] \<and> \<not> isChannelId (trim_js input) \<and> channelMatch (trim_js input) = None \<and>
    handleMatch (trim_js input) = Some g \<and> encodeURIComponent (stripAt g) = Inr q \<and>
    (firstItemId (lookupHandle e q) = Inl x \<or> firstItemId (lookupHandle e q) = Inr None) \<longrightarrow>
      extractChannelId (lookupHandle e) input = (Inr None, [q]) \<and>
      postYoutubeAge e c (Some input) =
        (Inr (ErrorJson 400 (js ''Invalid channel URL or ID'')), c, [HandleLookup q]))"
proof (intro conjI impI)
  assume a: "input \<noteq> [] \<and> decodeURIComponent input = Inr d \<and> \<not> isChannelId d \<and>
    channelMatch d = None \<and> customMatch d = Some name \<and>
    firstItemId (lookupHandle e name) = Inl x \<and> cacheHit c input (clock_check e) = None"
  then show r: "extractChannelId_p0 (lookupHandle e) input = (Inl x, [name])"
    using extractChannelId_p0_handle_form [of input d name "lookupHandle e"] by simp
  show "routeYoutubeAge_p0 e c (Some input) = (Inl x, c, [HandleLookup name])"
    using a r by (simp add: routeYoutubeAge_p0_def handleChannelRequest_def)
next
  assume a: "input \<noteq> [] \<and> \<not> isChannelId (trim_js input) \<and> channelMatch (trim_js input) = None \<and>
    handleMatch (trim_js input) = Some g \<and> encodeURIComponent (stripAt g) = Inr q \<and>
    (firstItemId (lookupHandle e q) = Inl x \<or> firstItemId (lookupHandle e q) = Inr None)"
  then show r: "extractChannelId (lookupHandle e) input = (Inr None, [q])"
    using extractChannelId_handle_form [of input g q "lookupHandle e"] by auto
  show "postYoutubeAge e c (Some input) =
        (Inr (ErrorJson 400 (js ''Invalid channel URL or ID'')), c, [HandleLookup q])"
    using a r by (simp add: postYoutubeAge_def)
qed

theorem handle_lookup_failure_witness:
  "extractChannelId_p0 (\<lambda>q. FetchRejected) (js ''@MrBeast'') = (Inl FetchError, [js ''MrBeast'']) \<and>
   routeYoutubeAge_p0 (exampleEnv\<lparr>lookupHandle := \<lambda>q. FetchRejected\<rparr>) Map.empty
     (Some (js ''@MrBeast'')) =
     (Inl FetchError, Map.empty, [HandleLookup (js ''MrBeast'')]) \<and>
   extractChannelId (\<lambda>q. FetchRejected) (js ''@MrBeast'') = (Inr None, [js ''MrBeast'']) \<and>
   postYoutubeAge (exampleEnv\<lparr>lookupHandle := \<lambda>q. FetchRejected\<rparr>) Map.empty
     (Some (js ''@MrBeast'')) =
     (Inr (ErrorJson 400 (js ''Invalid channel URL or ID'')), Map.empty,
      [HandleLookup (js ''MrBeast'')])"
  using handle_lookup_failure [where e = "exampleEnv\<lparr>lookupHandle := \<lambda>q. FetchRejected\<rparr>"
      and input = "js ''@MrBeast''" and d = "js ''@MrBeast''" and name = "js ''MrBeast''"
      and g = "js ''MrBeast''" and q = "js ''MrBeast''" and x = FetchError and c = Map.empty]
    resolve_MrBeast example_nonempty(2)
  by (simp add: firstItemId_failures cacheHit_empty)

end
